theory Spec2Isabelle
  imports Complex_Main "HOL-Library.Log_Nat" "HOL-Library.Code_Target_Nat"
begin

section \<open>Numbers, dates and records of \<open>src/pages/analytics.tsx\<close>\<close>

text \<open>
  A JavaScript number is modelled as a real, one of the two infinities, or NaN. The
  operations \<open>js_add\<close>, \<open>js_sub\<close>, \<open>js_mul\<close> and \<open>js_div\<close> give the exact result; the
  operations that round it to a double are \<open>dbl_add\<close> and \<open>dbl_mul\<close> below, used by the
  size parser and by the procrastination score. Comparisons follow the language: any
  comparison with NaN is false, and \<open>a <= b\<close> is "not \<open>b < a\<close>, and neither is NaN".
\<close>

datatype number = Num real | PosInfinity | NegInfinity | NaN

fun js_lt :: "number \<Rightarrow> number \<Rightarrow> bool" where
  "js_lt NaN y = False"
| "js_lt x NaN = False"
| "js_lt (Num a) (Num b) = (a < b)"
| "js_lt x NegInfinity = False"
| "js_lt NegInfinity y = True"
| "js_lt PosInfinity y = False"
| "js_lt x PosInfinity = True"

definition js_gt :: "number \<Rightarrow> number \<Rightarrow> bool" where
  "js_gt x y = js_lt y x"

definition js_le :: "number \<Rightarrow> number \<Rightarrow> bool" where
  "js_le x y = (x \<noteq> NaN \<and> y \<noteq> NaN \<and> \<not> js_lt y x)"

definition js_ge :: "number \<Rightarrow> number \<Rightarrow> bool" where
  "js_ge x y = js_le y x"

text \<open>Subtraction and division, with the special values written out.\<close>

fun js_neg :: "number \<Rightarrow> number" where
  "js_neg (Num a) = Num (- a)"
| "js_neg PosInfinity = NegInfinity"
| "js_neg NegInfinity = PosInfinity"
| "js_neg NaN = NaN"

fun js_add :: "number \<Rightarrow> number \<Rightarrow> number" where
  "js_add NaN y = NaN"
| "js_add x NaN = NaN"
| "js_add (Num a) (Num b) = Num (a + b)"
| "js_add PosInfinity NegInfinity = NaN"
| "js_add NegInfinity PosInfinity = NaN"
| "js_add PosInfinity y = PosInfinity"
| "js_add NegInfinity y = NegInfinity"
| "js_add (Num a) y = y"

definition js_sub :: "number \<Rightarrow> number \<Rightarrow> number" where
  "js_sub x y = js_add x (js_neg y)"

fun js_div :: "number \<Rightarrow> number \<Rightarrow> number" where
  "js_div NaN y = NaN"
| "js_div x NaN = NaN"
| "js_div (Num a) (Num b) =
     (if b \<noteq> 0 then Num (a / b)
      else if a = 0 then NaN
      else if 0 < a then PosInfinity else NegInfinity)"
| "js_div (Num a) y = Num 0"
| "js_div PosInfinity (Num b) = (if 0 \<le> b then PosInfinity else NegInfinity)"
| "js_div NegInfinity (Num b) = (if 0 \<le> b then NegInfinity else PosInfinity)"
| "js_div x y = NaN"

fun isFinite :: "number \<Rightarrow> bool" where
  "isFinite (Num a) = True"
| "isFinite x = False"

fun js_mul :: "number \<Rightarrow> number \<Rightarrow> number" where
  "js_mul NaN y = NaN"
| "js_mul x NaN = NaN"
| "js_mul (Num a) (Num b) = Num (a * b)"
| "js_mul (Num a) PosInfinity = (if a = 0 then NaN else if 0 < a then PosInfinity else NegInfinity)"
| "js_mul (Num a) NegInfinity = (if a = 0 then NaN else if 0 < a then NegInfinity else PosInfinity)"
| "js_mul PosInfinity (Num b) = (if b = 0 then NaN else if 0 < b then PosInfinity else NegInfinity)"
| "js_mul NegInfinity (Num b) = (if b = 0 then NaN else if 0 < b then NegInfinity else PosInfinity)"
| "js_mul PosInfinity PosInfinity = PosInfinity"
| "js_mul NegInfinity NegInfinity = PosInfinity"
| "js_mul x y = NegInfinity"

subsection \<open>Doubles\<close>

text \<open>
  The double nearest to a real (IEEE 754 binary64, round to nearest, ties to even).
  \<open>expo x\<close> is the exponent of the binade of \<open>x\<close>, at least \<open>-1022\<close> (below that the
  doubles are equally spaced); \<open>ulp x\<close> is the distance between the doubles of that
  binade, 52 binary places below; \<open>nearest x\<close> is the multiple of \<open>ulp x\<close> nearest to
  \<open>x\<close>, the even multiple when two are equally near. A result of magnitude \<open>2 ^ 1024\<close>
  or more is an infinity. The sign of zero is not modelled.
\<close>

definition expo :: "real \<Rightarrow> int" where
  "expo x = max (- 1022) (bitlen \<lfloor>\<bar>x\<bar> * 2 ^ 1074\<rfloor> - 1075)"

definition ulp :: "real \<Rightarrow> real" where
  "ulp x = 2 powi (expo x - 52)"

definition roundEven :: "real \<Rightarrow> int" where
  "roundEven q =
     (if q - of_int \<lfloor>q\<rfloor> < 1 / 2 then \<lfloor>q\<rfloor>
      else if 1 / 2 < q - of_int \<lfloor>q\<rfloor> then \<lfloor>q\<rfloor> + 1
      else if even \<lfloor>q\<rfloor> then \<lfloor>q\<rfloor> else \<lfloor>q\<rfloor> + 1)"

definition nearest :: "real \<Rightarrow> real" where
  "nearest x = of_int (roundEven (x / ulp x)) * ulp x"

definition toDouble :: "real \<Rightarrow> number" where
  "toDouble x =
     (if 2 ^ 1024 \<le> nearest x then PosInfinity
      else if nearest x \<le> - (2 ^ 1024) then NegInfinity
      else Num (nearest x))"

text \<open>Addition and multiplication of doubles: the exact result, rounded.\<close>

fun rounded :: "number \<Rightarrow> number" where
  "rounded (Num r) = toDouble r"
| "rounded x = x"

definition dbl_add :: "number \<Rightarrow> number \<Rightarrow> number" where
  "dbl_add x y = rounded (js_add x y)"

definition dbl_mul :: "number \<Rightarrow> number \<Rightarrow> number" where
  "dbl_mul x y = rounded (js_mul x y)"

text \<open>
  A \<open>Date\<close> holds a time value: an integer number of milliseconds since the epoch, or
  NaN (an invalid date).
\<close>

datatype Date = InvalidDate | Date int

fun getTime :: "Date \<Rightarrow> number" where
  "getTime InvalidDate = NaN"
| "getTime (Date t) = Num (of_int t)"

text \<open>
  The size of an attachment is a number or free text; the record of a homework keeps the
  fields the page reads. \<open>None\<close> stands for \<open>undefined\<close>.
\<close>

datatype SizeValue = SizeNumber number | SizeText string

record Attachment =
  size_att :: "SizeValue option"

record Homework =
  courseId :: string
  deadline :: "Date option"
  submitted :: bool
  submitTime :: "Date option"
  submittedAttachment :: "Attachment option"

record Semester =
  startDate :: "Date option"
  endDate :: "Date option"

text \<open>\<open>{label, min, max}\<close> of the bucket tables, and \<open>{label, value}\<close> of a bar.\<close>

record Bucket =
  label :: string
  min_b :: number
  max_b :: number

type_synonym BarItem = "string \<times> nat"

section \<open>Derived lists\<close>

definition submittedAll :: "Homework list \<Rightarrow> Homework list" where
  "submittedAll homeworks = filter (\<lambda>h. submitted h) homeworks"

definition submittedHomeworks :: "Homework list \<Rightarrow> Homework list" where
  "submittedHomeworks homeworks = filter (\<lambda>h. submitTime h \<noteq> None) (submittedAll homeworks)"

text \<open>
  \<open>hw.submitTime\<close> of an element of \<open>submittedHomeworks\<close>. The filter above keeps only
  records where it is present, so the second branch is never taken there.
\<close>

definition submitTimeOf :: "Homework \<Rightarrow> Date" where
  "submitTimeOf hw = (case submitTime hw of Some d \<Rightarrow> d | None \<Rightarrow> InvalidDate)"

section \<open>Range buckets\<close>

text \<open>\<open>Array.prototype.findIndex\<close>; \<open>None\<close> stands for the result \<open>-1\<close>.\<close>

fun findIndex :: "('a \<Rightarrow> bool) \<Rightarrow> 'a list \<Rightarrow> nat option" where
  "findIndex P [] = None"
| "findIndex P (x # xs) = (if P x then Some 0 else map_option Suc (findIndex P xs))"

text \<open>The predicate \<open>(b) => v > b.min && v <= b.max\<close> used at every bucket table.\<close>

definition inBucket :: "number \<Rightarrow> Bucket \<Rightarrow> bool" where
  "inBucket v b = (js_gt v (min_b b) \<and> js_le v (max_b b))"

definition bucketIndex :: "Bucket list \<Rightarrow> number \<Rightarrow> nat option" where
  "bucketIndex buckets v = findIndex (inBucket v) buckets"

text \<open>\<open>if (idx >= 0) counts[idx] += 1\<close>\<close>

definition bump :: "nat option \<Rightarrow> nat list \<Rightarrow> nat list" where
  "bump idx counts = (case idx of None \<Rightarrow> counts | Some i \<Rightarrow> counts[i := counts ! i + 1])"

text \<open>\<open>buckets.map((bucket, idx) => ({label: bucket.label, value: counts[idx]}))\<close>\<close>

definition barItems :: "Bucket list \<Rightarrow> nat list \<Rightarrow> BarItem list" where
  "barItems buckets counts =
     map (\<lambda>idx. (label (buckets ! idx), counts ! idx)) [0..<length buckets]"

section \<open>Submission lag\<close>

text \<open>
  The labels of the page are translated messages; they are written here by their meaning
  in ASCII.
\<close>

definition lagBuckets :: "Bucket list" where
  "lagBuckets =
     [\<lparr>label = ''overdue'', min_b = NegInfinity, max_b = Num 0\<rparr>,
      \<lparr>label = ''0-6h'', min_b = Num 0, max_b = Num 6\<rparr>,
      \<lparr>label = ''6-24h'', min_b = Num 6, max_b = Num 24\<rparr>,
      \<lparr>label = ''1-3d'', min_b = Num 24, max_b = Num 72\<rparr>,
      \<lparr>label = ''>3d'', min_b = Num 72, max_b = PosInfinity\<rparr>]"

text \<open>\<open>(hw.deadline.getTime() - hw.submitTime.getTime()) / 3600000\<close>\<close>

definition diffHours :: "Date \<Rightarrow> Date \<Rightarrow> number" where
  "diffHours d s = js_div (js_sub (getTime d) (getTime s)) (Num 3600000)"

definition lagStep :: "Homework \<Rightarrow> nat list \<Rightarrow> nat list" where
  "lagStep hw counts =
     (case deadline hw of
        None \<Rightarrow> counts
      | Some d \<Rightarrow> bump (bucketIndex lagBuckets (diffHours d (submitTimeOf hw))) counts)"

definition lagCounts :: "Homework list \<Rightarrow> nat list" where
  "lagCounts homeworks =
     fold lagStep (submittedHomeworks homeworks) (replicate (length lagBuckets) 0)"

definition submissionLagBuckets :: "Homework list \<Rightarrow> BarItem list" where
  "submissionLagBuckets homeworks = barItems lagBuckets (lagCounts homeworks)"

section \<open>Size parser\<close>

text \<open>
  Strings are lists of 8-bit characters. \<open>isSpace\<close> is the class \<open>\s\<close> (and what
  \<open>trim\<close> removes) in that range, \<open>isDigit\<close> is \<open>\d\<close>, \<open>isNumCh\<close> is \<open>[\d.]\<close>,
  \<open>isWordCh\<close> is \<open>\w\<close>; \<open>isKMGT\<close> and \<open>isB\<close> are \<open>[kmgt]\<close> and \<open>b\<close> under the
  flag \<open>i\<close>.
\<close>

definition isSpace :: "char \<Rightarrow> bool" where
  "isSpace c = (c \<in> set [CHR 0x09, CHR 0x0A, CHR 0x0B, CHR 0x0C, CHR 0x0D, CHR '' '', CHR 0xA0])"

definition isDigit :: "char \<Rightarrow> bool" where
  "isDigit c = (c \<in> set ''0123456789'')"

definition isNumCh :: "char \<Rightarrow> bool" where
  "isNumCh c = (isDigit c \<or> c = CHR ''.'')"

definition isWordCh :: "char \<Rightarrow> bool" where
  "isWordCh c = (c \<in> set ''abcdefghijklmnopqrstuvwxyzABCDEFGHIJKLMNOPQRSTUVWXYZ0123456789_'')"

definition isKMGT :: "char \<Rightarrow> bool" where
  "isKMGT c = (c \<in> set ''kmgtKMGT'')"

definition isB :: "char \<Rightarrow> bool" where
  "isB c = (c \<in> set ''bB'')"

text \<open>\<open>toLowerCase\<close> on the ASCII letters, which is all the regular expressions let through.\<close>

definition lowerChar :: "char \<Rightarrow> char" where
  "lowerChar c =
     (case map_of (zip ''ABCDEFGHIJKLMNOPQRSTUVWXYZ'' ''abcdefghijklmnopqrstuvwxyz'') c of
        Some d \<Rightarrow> d
      | None \<Rightarrow> c)"

definition toLowerCase :: "string \<Rightarrow> string" where
  "toLowerCase s = map lowerChar s"

definition trim :: "string \<Rightarrow> string" where
  "trim s = rev (dropWhile isSpace (rev (dropWhile isSpace s)))"

text \<open>\<open>value.trim().replace(/,/g, '')\<close>\<close>

definition rawOf :: "string \<Rightarrow> string" where
  "rawOf v = filter (\<lambda>c. c \<noteq> CHR '','') (trim v)"

text \<open>The integer that a string of decimal digits denotes.\<close>

definition digitVal :: "char \<Rightarrow> nat" where
  "digitVal c = of_char c - 48"

definition decVal :: "string \<Rightarrow> nat" where
  "decVal s = foldl (\<lambda>n c. 10 * n + digitVal c) 0 s"

text \<open>
  \<open>Number.parseInt(raw, 10)\<close> on \<open>^\d+$\<close>: the double nearest to that integer, which is
  \<open>Infinity\<close> for an integer too large. (The language lets an engine ignore the digits
  after the twentieth significant one; the engines round the exact value, as here.)
\<close>

definition parseInt :: "string \<Rightarrow> number" where
  "parseInt s = toDouble (real (decVal s))"

text \<open>
  \<open>Number.parseFloat\<close> on a non-empty string of digits and dots: the longest prefix that is
  a decimal literal (digits, then optionally a dot and digits; or a dot and at least one
  digit), as the double nearest to its value, and NaN when there is none.
\<close>

definition parseFloat :: "string \<Rightarrow> number" where
  "parseFloat s =
     (let ip = takeWhile isDigit s; r = dropWhile isDigit s in
      case r of
        c # r' \<Rightarrow>
          (if c = CHR ''.'' then
             (let fp = takeWhile isDigit r' in
              if ip = [] \<and> fp = [] then NaN
              else toDouble (real (decVal ip) + real (decVal fp) / 10 ^ length fp))
           else if ip = [] then NaN else toDouble (real (decVal ip)))
      | [] \<Rightarrow> if ip = [] then NaN else toDouble (real (decVal ip)))"

text \<open>\<open>\b\<close> after a unit letter: the rest is empty or starts with a non-word character.\<close>

definition boundary :: "string \<Rightarrow> bool" where
  "boundary rest = (case rest of [] \<Rightarrow> True | c # cs \<Rightarrow> \<not> isWordCh c)"

text \<open>
  \<open>([kmgt]?b|[kmgt])\b\<close> at the head of a string, in the order a backtracking matcher
  tries: \<open>[kmgt]b\<close>, then \<open>b\<close>, then \<open>[kmgt]\<close>. The result is the second group.
\<close>

definition unitAt :: "string \<Rightarrow> string option" where
  "unitAt s =
     (case s of
        [] \<Rightarrow> None
      | a # t \<Rightarrow>
          (if isKMGT a \<and> t \<noteq> [] \<and> isB (hd t) \<and> boundary (tl t) then Some [a, hd t]
           else if isB a \<and> boundary t then Some [a]
           else if isKMGT a \<and> boundary t then Some [a]
           else None))"

text \<open>
  \<open>([\d.]+)\s*([kmgt]?b|[kmgt])\b\<close> at the head of a string. The two greedy runs never
  give a character back with success: what follows a shorter run would have to be a unit
  letter and is a digit, a dot or a space.
\<close>

definition matchAt :: "string \<Rightarrow> (string \<times> string) option" where
  "matchAt s =
     (let num = takeWhile isNumCh s in
      if num = [] then None
      else case unitAt (dropWhile isSpace (dropWhile isNumCh s)) of
             None \<Rightarrow> None
           | Some u \<Rightarrow> Some (num, u))"

text \<open>\<open>raw.match(...)\<close> without anchor: the leftmost position where the pattern matches.\<close>

fun matchUnit :: "string \<Rightarrow> (string \<times> string) option" where
  "matchUnit [] = None"
| "matchUnit (c # cs) =
     (case matchAt (c # cs) of Some r \<Rightarrow> Some r | None \<Rightarrow> matchUnit cs)"

text \<open>\<open>raw.match(/^([\d.]+)\s*bytes?$/i)\<close>: the first group.\<close>

definition matchBytes :: "string \<Rightarrow> string option" where
  "matchBytes s =
     (let num = takeWhile isNumCh s;
          rest = toLowerCase (dropWhile isSpace (dropWhile isNumCh s)) in
      if num \<noteq> [] \<and> (rest = ''byte'' \<or> rest = ''bytes'') then Some num else None)"

definition factorMap :: "string \<rightharpoonup> real" where
  "factorMap =
     map_of [(''b'', 1), (''k'', 1024), (''kb'', 1024), (''m'', 1024 ^ 2), (''mb'', 1024 ^ 2),
             (''g'', 1024 ^ 3), (''gb'', 1024 ^ 3), (''t'', 1024 ^ 4), (''tb'', 1024 ^ 4)]"

text \<open>\<open>Number.isFinite(x) ? x : undefined\<close>\<close>

definition finiteOrUndefined :: "number \<Rightarrow> number option" where
  "finiteOrUndefined x = (if isFinite x then Some x else None)"

text \<open>
  \<open>if (!Number.isFinite(num)) return undefined; ... return num * (factorMap[unit] ?? 1)\<close>
\<close>

definition scale :: "number \<Rightarrow> string \<Rightarrow> number option" where
  "scale num unit =
     (if \<not> isFinite num then None
      else Some (dbl_mul num (Num (case factorMap unit of Some f \<Rightarrow> f | None \<Rightarrow> 1))))"

definition parseSizeText :: "string \<Rightarrow> number option" where
  "parseSizeText v =
     (let raw = rawOf v in
      if raw = [] then None
      else if list_all isDigit raw then Some (parseInt raw)
      else case matchUnit raw of
             None \<Rightarrow>
               (case matchBytes raw of
                  None \<Rightarrow> None
                | Some b \<Rightarrow> finiteOrUndefined (parseFloat b))
           | Some (num, unit) \<Rightarrow> scale (parseFloat num) (toLowerCase unit))"

fun parseSizeToBytes :: "SizeValue option \<Rightarrow> number option" where
  "parseSizeToBytes None = None"
| "parseSizeToBytes (Some (SizeNumber n)) = finiteOrUndefined n"
| "parseSizeToBytes (Some (SizeText v)) = parseSizeText v"

section \<open>Attachment statistics\<close>

record AttachmentStats =
  total :: nat
  totalSize :: number
  bucketItems :: "BarItem list"

definition sizeBuckets :: "Bucket list" where
  "sizeBuckets =
     [\<lparr>label = ''<100KB'', min_b = Num 0, max_b = Num (100 * 1024)\<rparr>,
      \<lparr>label = ''100KB-1MB'', min_b = Num (100 * 1024), max_b = Num (1024 * 1024)\<rparr>,
      \<lparr>label = ''1-5MB'', min_b = Num (1024 * 1024), max_b = Num (5 * 1024 * 1024)\<rparr>,
      \<lparr>label = ''5-20MB'', min_b = Num (5 * 1024 * 1024), max_b = Num (20 * 1024 * 1024)\<rparr>,
      \<lparr>label = ''>20MB'', min_b = Num (20 * 1024 * 1024), max_b = PosInfinity\<rparr>]"

text \<open>\<open>submittedAll.map((hw) => hw.submittedAttachment).filter(Boolean)\<close>\<close>

definition attachments :: "Homework list \<Rightarrow> Attachment option list" where
  "attachments homeworks =
     filter (\<lambda>a. a \<noteq> None) (map submittedAttachment (submittedAll homeworks))"

text \<open>\<open>parseSizeToBytes(file?.size)\<close>, kept when it is a finite number.\<close>

definition sizeOf :: "Attachment option \<Rightarrow> number list" where
  "sizeOf file =
     (case parseSizeToBytes (Option.bind file size_att) of
        None \<Rightarrow> []
      | Some v \<Rightarrow> if isFinite v then [v] else [])"

definition sizes :: "Homework list \<Rightarrow> number list" where
  "sizes homeworks = concat (map sizeOf (attachments homeworks))"

definition sizeStep :: "number \<Rightarrow> nat list \<Rightarrow> nat list" where
  "sizeStep sz counts = bump (bucketIndex sizeBuckets sz) counts"

definition attachmentStats :: "Homework list \<Rightarrow> AttachmentStats" where
  "attachmentStats homeworks =
     \<lparr>total = length (attachments homeworks),
      totalSize = foldl js_add (Num 0) (sizes homeworks),
      bucketItems =
        barItems sizeBuckets
          (fold sizeStep (sizes homeworks) (replicate (length sizeBuckets) 0))\<rparr>"

section \<open>Rates\<close>

text \<open>\<open>count / length\<close> on two array lengths.\<close>

definition ratio :: "nat \<Rightarrow> nat \<Rightarrow> number" where
  "ratio count n = js_div (Num (real count)) (Num (real n))"

definition submissionRate :: "Homework list \<Rightarrow> number" where
  "submissionRate homeworks =
     (let submittedCount = length (submittedAll homeworks);
          totalCount = length homeworks in
      if totalCount = 0 then Num 0 else ratio submittedCount totalCount)"

text \<open>
  \<open>hw.deadline\<close> where the code has just tested that it is present; the second branch is
  never taken there.
\<close>

definition deadlineOf :: "Homework \<Rightarrow> Date" where
  "deadlineOf hw = (case deadline hw of Some d \<Rightarrow> d | None \<Rightarrow> InvalidDate)"

definition leadHours :: "Homework list \<Rightarrow> number list" where
  "leadHours homeworks =
     (if length (submittedHomeworks homeworks) = 0 then []
      else map (\<lambda>hw. diffHours (deadlineOf hw) (submitTimeOf hw))
             (filter (\<lambda>hw. deadline hw \<noteq> None) (submittedHomeworks homeworks)))"

definition last6Rate :: "Homework list \<Rightarrow> number" where
  "last6Rate homeworks =
     (let lead = leadHours homeworks in
      if length lead = 0 then Num 0
      else ratio (length (filter (\<lambda>h. js_ge h (Num 0) \<and> js_le h (Num 6)) lead)) (length lead))"

definition last24Rate :: "Homework list \<Rightarrow> number" where
  "last24Rate homeworks =
     (let lead = leadHours homeworks in
      if length lead = 0 then Num 0
      else ratio (length (filter (\<lambda>h. js_ge h (Num 0) \<and> js_le h (Num 24)) lead)) (length lead))"

section \<open>Local time\<close>

text \<open>
  The local time zone is a fixed offset \<open>tz\<close> from UTC in milliseconds (no daylight
  saving): local time is \<open>t + tz\<close>, and \<open>localDay\<close> is its day number (day 0 is
  1 January 1970, a Thursday).

  The host's \<open>Date\<close> uses the proleptic Gregorian calendar. The year, month (1 to 12)
  and day of the month of a day number are computed in eras of 400 years that start on
  1 March: \<open>dayOfEra\<close> is the day within the era, \<open>yearOfEra\<close> the year within it,
  \<open>dayOfYear\<close> the day within that year and \<open>monthIndex\<close> its month, both counted from
  March.
\<close>

definition msPerDay :: int where
  "msPerDay = 86400000"

definition era :: "int \<Rightarrow> int" where
  "era n = (n + 719468) div 146097"

definition dayOfEra :: "int \<Rightarrow> int" where
  "dayOfEra n = (n + 719468) mod 146097"

definition yearOfEra :: "int \<Rightarrow> int" where
  "yearOfEra doe = (doe - doe div 1460 + doe div 36524 - doe div 146096) div 365"

definition dayOfYear :: "int \<Rightarrow> int" where
  "dayOfYear doe = doe - (365 * yearOfEra doe + yearOfEra doe div 4 - yearOfEra doe div 100)"

definition monthIndex :: "int \<Rightarrow> int" where
  "monthIndex doe = (5 * dayOfYear doe + 2) div 153"

definition civilDay :: "int \<Rightarrow> int" where
  "civilDay n = dayOfYear (dayOfEra n) - (153 * monthIndex (dayOfEra n) + 2) div 5 + 1"

definition civilMonth :: "int \<Rightarrow> int" where
  "civilMonth n =
     (if monthIndex (dayOfEra n) < 10 then monthIndex (dayOfEra n) + 3
      else monthIndex (dayOfEra n) - 9)"

definition civilYear :: "int \<Rightarrow> int" where
  "civilYear n = yearOfEra (dayOfEra n) + era n * 400 + (if civilMonth n \<le> 2 then 1 else 0)"

definition localDay :: "int \<Rightarrow> int \<Rightarrow> int" where
  "localDay tz t = (t + tz) div msPerDay"

definition dayOfMonth :: "int \<Rightarrow> int \<Rightarrow> int" where
  "dayOfMonth tz t = civilDay (localDay tz t)"

definition weekDay :: "int \<Rightarrow> int \<Rightarrow> int" where
  "weekDay tz t = (localDay tz t + 4) mod 7"

fun getHours :: "int \<Rightarrow> Date \<Rightarrow> number" where
  "getHours tz InvalidDate = NaN"
| "getHours tz (Date t) = Num (of_int (((t + tz) mod msPerDay) div 3600000))"

fun getDay :: "int \<Rightarrow> Date \<Rightarrow> number" where
  "getDay tz InvalidDate = NaN"
| "getDay tz (Date t) = Num (of_int (weekDay tz t))"

fun getMonth :: "int \<Rightarrow> Date \<Rightarrow> number" where
  "getMonth tz InvalidDate = NaN"
| "getMonth tz (Date t) = Num (of_int (civilMonth (localDay tz t) - 1))"

text \<open>A time value outside \<open>\<plusminus>8.64e15\<close> makes the date invalid.\<close>

definition timeClip :: "int \<Rightarrow> Date" where
  "timeClip t = (if \<bar>t\<bar> \<le> 8640000000000000 then Date t else InvalidDate)"

text \<open>\<open>new Date(number)\<close>\<close>

fun newDate :: "number \<Rightarrow> Date" where
  "newDate (Num r) = timeClip (if 0 \<le> r then \<lfloor>r\<rfloor> else \<lceil>r\<rceil>)"
| "newDate x = InvalidDate"

text \<open>
  \<open>date.setDate(dt)\<close>: the same month and time of day, on day \<open>dt\<close> of the month (days
  outside the month carry over).
\<close>

fun setDate :: "int \<Rightarrow> Date \<Rightarrow> int \<Rightarrow> Date" where
  "setDate tz InvalidDate dt = InvalidDate"
| "setDate tz (Date t) dt = timeClip (t + (dt - dayOfMonth tz t) * msPerDay)"

text \<open>\<open>date.setHours(0, 0, 0, 0)\<close>\<close>

fun setHours0 :: "int \<Rightarrow> Date \<Rightarrow> Date" where
  "setHours0 tz InvalidDate = InvalidDate"
| "setHours0 tz (Date t) = timeClip (localDay tz t * msPerDay - tz)"

fun addDays :: "int \<Rightarrow> Date \<Rightarrow> int \<Rightarrow> Date" where
  "addDays tz InvalidDate offset = InvalidDate"
| "addDays tz (Date t) offset = setDate tz (Date t) (dayOfMonth tz t + offset)"

fun startOfWeek :: "int \<Rightarrow> Date \<Rightarrow> Date" where
  "startOfWeek tz InvalidDate = InvalidDate"
| "startOfWeek tz (Date t) =
     (let diff = weekDay tz t in
      setHours0 tz (setDate tz (Date t) (dayOfMonth tz t - diff)))"

text \<open>Decimal notation of an integer, and \<open>padStart(2, '0')\<close> of it.\<close>

fun showNat :: "nat \<Rightarrow> string" where
  "showNat n =
     (if n < 10 then [''0123456789'' ! n]
      else showNat (n div 10) @ [''0123456789'' ! (n mod 10)])"

declare showNat.simps [simp del]

definition showInt :: "int \<Rightarrow> string" where
  "showInt i = (if i < 0 then CHR ''-'' # showNat (nat (- i)) else showNat (nat i))"

definition pad2 :: "int \<Rightarrow> string" where
  "pad2 num = replicate (2 - length (showInt num)) CHR ''0'' @ showInt num"

text \<open>
  \<open>getFullYear()\<close>, \<open>getMonth() + 1\<close> and \<open>getDate()\<close> are the civil year, month and day
  of the local day; on an invalid date all three are NaN.
\<close>

fun formatDateKey :: "int \<Rightarrow> Date \<Rightarrow> string" where
  "formatDateKey tz InvalidDate = ''NaN-NaN-NaN''"
| "formatDateKey tz (Date t) =
     showInt (civilYear (localDay tz t)) @ ''-'' @ pad2 (civilMonth (localDay tz t)) @ ''-'' @
     pad2 (civilDay (localDay tz t))"

section \<open>Night, weekend and late rates\<close>

definition nightRate :: "int \<Rightarrow> Homework list \<Rightarrow> number" where
  "nightRate tz homeworks =
     (let shw = submittedHomeworks homeworks in
      if length shw = 0 then Num 0
      else ratio
             (length (filter (\<lambda>hw. let hour = getHours tz (submitTimeOf hw) in
                                      js_ge hour (Num 22) \<or> js_lt hour (Num 6)) shw))
             (length shw))"

definition weekendRate :: "int \<Rightarrow> Homework list \<Rightarrow> number" where
  "weekendRate tz homeworks =
     (let shw = submittedHomeworks homeworks in
      if length shw = 0 then Num 0
      else ratio
             (length (filter (\<lambda>hw. let day = getDay tz (submitTimeOf hw) in
                                      day = Num 0 \<or> day = Num 6) shw))
             (length shw))"

definition lateRate :: "Homework list \<Rightarrow> number" where
  "lateRate homeworks =
     (let shw = submittedHomeworks homeworks in
      if length shw = 0 then Num 0
      else ratio
             (length (filter (\<lambda>hw. deadline hw \<noteq> None \<and>
                                      js_gt (getTime (submitTimeOf hw)) (getTime (deadlineOf hw))) shw))
             (length shw))"

section \<open>Pending risk\<close>

record PendingRisk =
  total_risk :: nat
  riskScore :: number
  items :: "BarItem list"

definition riskBuckets :: "Bucket list" where
  "riskBuckets =
     [\<lparr>label = ''<6h'', min_b = Num 0, max_b = Num 6\<rparr>,
      \<lparr>label = ''6-24h'', min_b = Num 6, max_b = Num 24\<rparr>,
      \<lparr>label = ''1-3d'', min_b = Num 24, max_b = Num 72\<rparr>,
      \<lparr>label = ''>3d'', min_b = Num 72, max_b = PosInfinity\<rparr>]"

text \<open>\<open>now\<close> is the value of \<open>Date.now()\<close>, passed in.\<close>

definition riskStep :: "int \<Rightarrow> Homework \<Rightarrow> nat list \<Rightarrow> nat list" where
  "riskStep now hw counts =
     (let diffHours = js_div (js_sub (getTime (deadlineOf hw)) (Num (of_int now))) (Num 3600000) in
      if js_lt diffHours (Num 0) then counts
      else bump (bucketIndex riskBuckets diffHours) counts)"

definition pending :: "Homework list \<Rightarrow> Homework list" where
  "pending homeworks = filter (\<lambda>hw. \<not> submitted hw \<and> deadline hw \<noteq> None) homeworks"

definition riskCounts :: "int \<Rightarrow> Homework list \<Rightarrow> nat list" where
  "riskCounts now homeworks =
     fold (riskStep now) (pending homeworks) (replicate (length riskBuckets) 0)"

definition pendingRisk :: "int \<Rightarrow> Homework list \<Rightarrow> PendingRisk" where
  "pendingRisk now homeworks =
     (let counts = riskCounts now homeworks;
          soonCount = counts ! 0 + counts ! 1;
          total = foldl (\<lambda>sum v. sum + v) 0 counts;
          riskScore = (if total = 0 then Num 0 else ratio soonCount total)
      in \<lparr>total_risk = total, riskScore = riskScore, items = barItems riskBuckets counts\<rparr>)"

section \<open>Submissions per calendar day\<close>

text \<open>\<open>counts.set(key, (counts.get(key) ?? 0) + 1)\<close> on a \<open>Map\<close> from date keys to counts.\<close>

definition getOr0 :: "(string \<rightharpoonup> nat) \<Rightarrow> string \<Rightarrow> nat" where
  "getOr0 counts key = (case counts key of None \<Rightarrow> 0 | Some n \<Rightarrow> n)"

definition countDay :: "int \<Rightarrow> Homework \<Rightarrow> (string \<rightharpoonup> nat) \<Rightarrow> (string \<rightharpoonup> nat)" where
  "countDay tz hw counts =
     (let key = formatDateKey tz (submitTimeOf hw) in counts(key \<mapsto> getOr0 counts key + 1))"

definition dayCounts :: "int \<Rightarrow> Homework list \<Rightarrow> (string \<rightharpoonup> nat)" where
  "dayCounts tz shw = fold (countDay tz) shw Map.empty"

section \<open>Submission trend\<close>

type_synonym LineItem = "string \<times> nat"

text \<open>\<open>homeworks.map((hw) => hw.deadline).filter(Boolean)\<close>, as dates.\<close>

definition deadlines :: "Homework list \<Rightarrow> Date list" where
  "deadlines homeworks =
     map deadlineOf (filter (\<lambda>hw. deadline hw \<noteq> None) homeworks)"

definition candidateDates :: "Homework list \<Rightarrow> Date list" where
  "candidateDates homeworks =
     filter (\<lambda>date. getTime date \<noteq> NaN)
       (map submitTimeOf (submittedHomeworks homeworks) @ deadlines homeworks)"

text \<open>\<open>reduce\<close> without an initial value, on a non-empty array.\<close>

definition minDate :: "Date \<Rightarrow> Date list \<Rightarrow> Date" where
  "minDate first rest =
     foldl (\<lambda>mn date. if js_lt (getTime date) (getTime mn) then date else mn) first rest"

definition maxDate :: "Date \<Rightarrow> Date list \<Rightarrow> Date" where
  "maxDate first rest =
     foldl (\<lambda>mx date. if js_gt (getTime date) (getTime mx) then date else mx) first rest"

text \<open>
  The two candidates are two fresh \<open>Date\<close> objects, at addresses 0 and 1 of a store of
  time values; \<open>tmp\<close> is a second name of the first object, not a copy.
  \<open>setTime\<close> writes through the address.
\<close>

type_synonym store = "nat \<Rightarrow> Date"

definition setTime :: "nat \<Rightarrow> number \<Rightarrow> store \<Rightarrow> store" where
  "setTime obj v st = st(obj := newDate v)"

definition normalizeRange :: "Date \<Rightarrow> Date \<Rightarrow> Date \<times> Date" where
  "normalizeRange firstDate lastDate =
     (let startCandidate = 0;
          endCandidate = 1;
          st0 = (\<lambda>obj. InvalidDate)(startCandidate := firstDate, endCandidate := lastDate);
          st3 =
            (if js_lt (getTime (st0 endCandidate)) (getTime (st0 startCandidate)) then
               (let tmp = startCandidate;
                    st1 = setTime startCandidate (getTime (st0 endCandidate)) st0;
                    st2 = setTime endCandidate (getTime (st1 tmp)) st1
                in st2)
             else st0)
      in (st3 startCandidate, st3 endCandidate))"

text \<open>\<open>(end.getTime() - start.getTime()) / 86400000\<close>\<close>

definition rangeDays :: "Date \<Rightarrow> Date \<Rightarrow> number" where
  "rangeDays start end = js_div (js_sub (getTime end) (getTime start)) (Num 86400000)"

definition trendWindow :: "Semester \<Rightarrow> Date \<Rightarrow> Date \<Rightarrow> Date \<times> Date" where
  "trendWindow semester mn mx =
     (case (startDate semester, endDate semester) of
        (Some firstDate, Some lastDate) \<Rightarrow>
          (case normalizeRange firstDate lastDate of
             (startCandidate, endCandidate) \<Rightarrow>
               (let days = rangeDays startCandidate endCandidate in
                if isFinite days \<and> js_ge days (Num 7) then (startCandidate, endCandidate)
                else (mn, mx)))
      | _ \<Rightarrow> (mn, mx))"

text \<open>
  \<open>Math.max(1, Math.ceil(...) + 1)\<close> as the number of rounds of the loop
  \<open>for (i = 0; i < totalDays; i += 1)\<close>; with NaN the loop does not run.
\<close>

definition totalDays :: "Date \<Rightarrow> Date \<Rightarrow> nat" where
  "totalDays start end =
     (case rangeDays start end of
        Num r \<Rightarrow> nat (max 1 (\<lceil>r\<rceil> + 1))
      | _ \<Rightarrow> 0)"

text \<open>\<open>key.split('-')\<close>, and an element of the result (\<open>undefined\<close> when missing).\<close>

fun splitOn :: "char \<Rightarrow> string \<Rightarrow> string list" where
  "splitOn c [] = [[]]"
| "splitOn c (x # xs) =
     (if x = c then [] # splitOn c xs
      else (case splitOn c xs of p # ps \<Rightarrow> (x # p) # ps | [] \<Rightarrow> [[x]]))"

definition part :: "string list \<Rightarrow> nat \<Rightarrow> string" where
  "part ps i = (if i < length ps then ps ! i else ''undefined'')"

definition trendItem :: "int \<Rightarrow> (string \<rightharpoonup> nat) \<Rightarrow> Date \<Rightarrow> nat \<Rightarrow> LineItem" where
  "trendItem tz counts start i =
     (let date = addDays tz start (int i);
          key = formatDateKey tz date;
          ps = splitOn CHR ''-'' key
      in (part ps 1 @ ''/'' @ part ps 2, getOr0 counts key))"

definition submissionTrend :: "int \<Rightarrow> Homework list \<Rightarrow> Semester \<Rightarrow> LineItem list" where
  "submissionTrend tz homeworks semester =
     (let counts = dayCounts tz (submittedHomeworks homeworks) in
      case candidateDates homeworks of
        [] \<Rightarrow> []
      | c # cs \<Rightarrow>
          (case trendWindow semester (minDate c cs) (maxDate c cs) of
             (start, end) \<Rightarrow> map (trendItem tz counts start) [0..<totalDays start end]))"

section \<open>Calendar heatmap\<close>

type_synonym HeatCell = "string \<times> nat"

record CalendarHeatmap =
  weeks :: "HeatCell list list"
  max_heat :: nat
  weekLabels :: "string list"
  lastMonth :: number

text \<open>\<open>Math.max(...xs)\<close>: NaN when an argument is NaN, \<open>-Infinity\<close> without arguments.\<close>

definition mathMax :: "number list \<Rightarrow> number" where
  "mathMax xs =
     foldl (\<lambda>m x. if m = NaN \<or> x = NaN then NaN else if js_gt x m then x else m) NegInfinity xs"

text \<open>The label of a month: the number \<open>month + 1\<close> and the sign for "month" (in UTF-8).\<close>

fun monthLabel :: "number \<Rightarrow> string" where
  "monthLabel (Num r) = showInt (\<lfloor>r\<rfloor> + 1) @ [CHR 0xE6, CHR 0x9C, CHR 0x88]"
| "monthLabel x = ''NaN'' @ [CHR 0xE6, CHR 0x9C, CHR 0x88]"

definition weekCells :: "int \<Rightarrow> (string \<rightharpoonup> nat) \<Rightarrow> Date \<Rightarrow> nat \<Rightarrow> HeatCell list" where
  "weekCells tz counts start w =
     map (\<lambda>d. let key = formatDateKey tz (addDays tz start (int (w * 7 + d)))
               in (key, getOr0 counts key)) [0..<7]"

text \<open>
  One round of the loop over the weeks; the state is the result under construction and
  \<open>lastMonth\<close>. \<open>month !== lastMonth\<close> is true whenever \<open>month\<close> is NaN.
\<close>

definition calendarWeek ::
  "int \<Rightarrow> (string \<rightharpoonup> nat) \<Rightarrow> Date \<Rightarrow> nat \<Rightarrow> CalendarHeatmap \<Rightarrow> CalendarHeatmap" where
  "calendarWeek tz counts start w st =
     (let weekStart = addDays tz start (int (w * 7));
          month = getMonth tz weekStart;
          changed = (month = NaN \<or> month \<noteq> lastMonth st);
          week = weekCells tz counts start w
      in \<lparr>weeks = weeks st @ [week],
          max_heat = foldl (\<lambda>m cell. if snd cell > m then snd cell else m) (max_heat st) week,
          weekLabels = weekLabels st @ [if changed then monthLabel month else []],
          lastMonth = (if changed then month else lastMonth st)\<rparr>)"

definition calendarHeatmap :: "int \<Rightarrow> Homework list \<Rightarrow> CalendarHeatmap" where
  "calendarHeatmap tz homeworks =
     (let shw = submittedHomeworks homeworks in
      if length shw = 0 then \<lparr>weeks = [], max_heat = 0, weekLabels = [], lastMonth = Num (- 1)\<rparr>
      else
        (let counts = dayCounts tz shw;
             mx = newDate (mathMax (map (\<lambda>h. getTime (submitTimeOf h)) shw));
             weeksCount = 16;
             start = startOfWeek tz (addDays tz mx (- (int weeksCount * 7 - 1)))
         in fold (calendarWeek tz counts start) [0..<weeksCount]
              \<lparr>weeks = [], max_heat = 0, weekLabels = [], lastMonth = Num (- 1)\<rparr>))"

section \<open>Procrastination profile\<close>

text \<open>
  \<open>Math.min(a, b)\<close> and \<open>Math.round(x)\<close> (halves go up); both are exact on doubles.
\<close>

definition mathMin :: "number \<Rightarrow> number \<Rightarrow> number" where
  "mathMin a b = (if a = NaN \<or> b = NaN then NaN else if js_lt b a then b else a)"

fun mathRound :: "number \<Rightarrow> number" where
  "mathRound (Num r) = Num (of_int \<lfloor>r + 1 / 2\<rfloor>)"
| "mathRound x = x"

record Profile =
  score :: number
  label_p :: string
  desc :: string

text \<open>
  The three rates are the arguments. The arithmetic is that of doubles: the literals
  \<open>0.5\<close>, \<open>0.3\<close> and \<open>0.2\<close> are the doubles nearest to them, and every product and sum
  is rounded.
\<close>

definition procrastinationProfile :: "number \<Rightarrow> number \<Rightarrow> number \<Rightarrow> Profile" where
  "procrastinationProfile late last24 last6 =
     (let rawScore =
            dbl_add (dbl_add (dbl_mul late (toDouble 0.5)) (dbl_mul last24 (toDouble 0.3)))
              (dbl_mul last6 (toDouble 0.2));
          score = mathRound (dbl_mul (mathMin (Num 1) rawScore) (Num 100))
      in if js_gt score (Num 80) then
           \<lparr>score = score, label_p = ''extreme'', desc = ''often submits at the last moment''\<rparr>
         else if js_gt score (Num 60) then
           \<lparr>score = score, label_p = ''sprinter'', desc = ''mostly submits before the deadline''\<rparr>
         else if js_gt score (Num 40) then
           \<lparr>score = score, label_p = ''borderline'', desc = ''stop and go, sometimes on the line''\<rparr>
         else if js_gt score (Num 20) then
           \<lparr>score = score, label_p = ''steady'', desc = ''steady pace, high completion''\<rparr>
         else
           \<lparr>score = score, label_p = ''planner'', desc = ''plans ahead, rarely delays''\<rparr>)"

section \<open>Quantities of the specification\<close>


definition msUntil :: "int \<Rightarrow> Homework \<Rightarrow> int option" where
  "msUntil now hw = (case deadline hw of Some (Date d) \<Rightarrow> Some (d - now) | _ \<Rightarrow> None)"



text \<open>
  Where a record with \<open>m\<close> milliseconds to its deadline goes in the pending-risk table:
  nowhere, or the bucket with this index.
\<close>

definition riskIndex :: "int \<Rightarrow> Homework \<Rightarrow> nat option" where
  "riskIndex now hw =
     (case msUntil now hw of
        None \<Rightarrow> None
      | Some m \<Rightarrow>
          if m \<le> 0 then None else if m \<le> 21600000 then Some 0
          else if m \<le> 86400000 then Some 1 else if m \<le> 259200000 then Some 2 else Some 3)"

text \<open>
  A decimal numeral (digits, and optionally a point and more digits), its value, and the
  power of 1024 that goes with the lower-case spelling of a unit.
\<close>

definition decimalText :: "string \<Rightarrow> string \<Rightarrow> string" where
  "decimalText ip fp = (if fp = [] then ip else ip @ ''.'' @ fp)"

definition decimalValue :: "string \<Rightarrow> string \<Rightarrow> real" where
  "decimalValue ip fp = real (decVal ip) + real (decVal fp) / 10 ^ length fp"

definition unitPower :: "string \<rightharpoonup> nat" where
  "unitPower =
     map_of [(''b'', 0), (''k'', 1), (''kb'', 1), (''m'', 2), (''mb'', 2), (''g'', 3), (''gb'', 3),
             (''t'', 4), (''tb'', 4)]"

section \<open>Properties of the rounding to a double\<close>

lemma expo_ge: "- 1022 \<le> expo x"
  by (simp add: expo_def)

lemma expo_normal:
  assumes "- 1022 < expo x"
  shows "2 powi expo x \<le> \<bar>x\<bar>" "\<bar>x\<bar> < 2 powi (expo x + 1)"
proof -
  define N where "N = \<lfloor>\<bar>x\<bar> * 2 ^ 1074\<rfloor>"
  have e: "expo x = bitlen N - 1075"
    using assms by (simp add: expo_def N_def max_def split: if_splits)
  then have "0 < bitlen N"
    using assms by simp
  then have N: "0 < N"
    using bitlen_eq_zero_iff [of N] by (cases "0 < N") simp_all
  have b: "2 ^ nat (bitlen N - 1) \<le> N" "N < 2 ^ nat (bitlen N)"
    using bitlen_bounds [OF N] by simp_all
  have p1: "(2::real) powi (bitlen N - 1) = 2 ^ nat (bitlen N - 1)"
    using \<open>0 < bitlen N\<close> by (simp add: power_int_def)
  have p2: "(2::real) powi (bitlen N) = 2 ^ nat (bitlen N)"
    using \<open>0 < bitlen N\<close> by (simp add: power_int_def)
  have "real_of_int N \<le> \<bar>x\<bar> * 2 ^ 1074" "\<bar>x\<bar> * 2 ^ 1074 < real_of_int N + 1"
    unfolding N_def by linarith+
  moreover have "(2::real) ^ nat (bitlen N - 1) \<le> real_of_int N"
    using b(1) by (metis of_int_le_iff of_int_numeral of_int_power)
  moreover have "real_of_int N + 1 \<le> 2 ^ nat (bitlen N)"
    using b(2) by (metis add.commute of_int_less_iff of_int_numeral of_int_power int_less_real_le)
  moreover have S: "(2::real) powi 1074 = 2 ^ 1074"
    by (rule power_int_numeral)
  ultimately have "2 powi (bitlen N - 1) \<le> \<bar>x\<bar> * 2 powi 1074"
    "\<bar>x\<bar> * 2 powi 1074 < 2 powi (bitlen N)"
    unfolding p1 p2 S by linarith+
  then have "2 powi (bitlen N - 1) * 2 powi (- 1074) \<le> \<bar>x\<bar> * 2 powi 1074 * 2 powi (- 1074)"
    "\<bar>x\<bar> * 2 powi 1074 * 2 powi (- 1074) < 2 powi (bitlen N) * 2 powi (- 1074)"
    by (simp_all del: power_int_numeral power_int_numeral_neg_numeral)
  moreover have "(2::real) powi (bitlen N - 1) * 2 powi (- 1074) = 2 powi (expo x)"
    "(2::real) powi (bitlen N) * 2 powi (- 1074) = 2 powi (expo x + 1)"
    unfolding e by (simp_all add: power_int_add [symmetric] del: power_int_numeral_neg_numeral)
  moreover have "\<bar>x\<bar> * 2 powi 1074 * 2 powi (- 1074) = \<bar>x\<bar>"
    by (simp add: power_int_minus)
  ultimately show "2 powi expo x \<le> \<bar>x\<bar>" "\<bar>x\<bar> < 2 powi (expo x + 1)"
    by simp_all
qed

lemma two_powi_less: "(2::real) powi m < 2 powi n \<longleftrightarrow> m < n"
proof
  assume a: "(2::real) powi m < 2 powi n"
  show "m < n"
  proof (rule ccontr)
    assume "\<not> m < n"
    then have "(2::real) powi n \<le> 2 powi m"
      by (intro power_int_increasing) simp_all
    then show False using a by simp
  qed
next
  assume "m < n"
  then show "(2::real) powi m < 2 powi n"
    by (intro power_int_strict_increasing) simp_all
qed

lemma two_powi_le: "(2::real) powi m \<le> 2 powi n \<longleftrightarrow> m \<le> n"
  using two_powi_less [of n m] by (simp add: not_less [symmetric])

lemma two_powi_pos: "0 < (2::real) powi n"
  by (simp add: zero_less_power_int)

lemma two_powi_Suc: "(2::real) powi (n + 1) = 2 * 2 powi n"
  by (simp add: power_int_add)

lemma expo_upper: "\<bar>x\<bar> < 2 powi (expo x + 1)"
proof (cases "- 1022 < expo x")
  case True
  then show ?thesis by (rule expo_normal)
next
  case False
  define N where "N = \<lfloor>\<bar>x\<bar> * 2 ^ 1074\<rfloor>"
  have e: "expo x = - 1022" "bitlen N \<le> 53"
    using False by (simp_all add: expo_def N_def max_def split: if_splits)
  have up: "\<bar>x\<bar> * 2 ^ 1074 < real_of_int N + 1"
    unfolding N_def by linarith
  have "N < 2 ^ 53"
  proof (cases "0 < N")
    case True
    have "N < 2 ^ nat (bitlen N)"
      using bitlen_bounds [OF True] by simp
    also have "\<dots> \<le> 2 ^ 53"
      using e(2) by (intro power_increasing) simp_all
    finally show ?thesis .
  next
    case False
    then have "N \<le> 0" by simp
    also have "(0::int) < 2 ^ 53" by simp
    finally show ?thesis .
  qed
  then have "N + 1 \<le> 2 ^ 53"
    by linarith
  then have "real_of_int (N + 1) \<le> real_of_int (2 ^ 53)"
    by (rule iffD2 [OF of_int_le_iff])
  then have "real_of_int N + 1 \<le> 2 ^ 53"
    by simp
  then have "\<bar>x\<bar> * 2 ^ 1074 < 2 ^ 53"
    using up by linarith
  then have "\<bar>x\<bar> * 2 powi 1074 < 2 powi 53"
    by simp
  then have "\<bar>x\<bar> * 2 powi 1074 * 2 powi (- 1074) < 2 powi 53 * 2 powi (- 1074)"
    by (simp del: power_int_numeral power_int_numeral_neg_numeral)
  moreover have "(2::real) powi 53 * 2 powi (- 1074) = 2 powi (- 1021)"
    by (simp add: power_int_add [symmetric]
        del: power_int_numeral power_int_numeral_neg_numeral)
  moreover have "\<bar>x\<bar> * 2 powi 1074 * 2 powi (- 1074) = \<bar>x\<bar>"
    by (simp add: power_int_minus)
  ultimately show ?thesis
    unfolding e(1) by simp
qed

lemma expo_eqI:
  assumes "- 1022 \<le> e" "2 powi e \<le> \<bar>x\<bar>" "\<bar>x\<bar> < 2 powi (e + 1)"
  shows "expo x = e"
proof -
  have "2 powi e < (2::real) powi (expo x + 1)"
    using assms(2) expo_upper [of x] by linarith
  then have lo: "e \<le> expo x"
    by (simp add: two_powi_less)
  have "expo x \<le> e"
  proof (cases "- 1022 < expo x")
    case True
    have "2 powi expo x < (2::real) powi (e + 1)"
      using expo_normal(1) [OF True] assms(3) by linarith
    then show ?thesis
      by (simp add: two_powi_less)
  next
    case False
    then show ?thesis using assms(1) by simp
  qed
  then show ?thesis using lo by simp
qed

lemma expo_small:
  assumes "\<bar>x\<bar> < 2 powi (- 1021)"
  shows "expo x = - 1022"
proof (rule ccontr)
  assume "expo x \<noteq> - 1022"
  then have n: "- 1022 < expo x"
    using expo_ge [of x] by simp
  have "2 powi expo x < (2::real) powi (- 1021)"
    using expo_normal(1) [OF n] assms by linarith
  then show False
    using n by (simp add: two_powi_less del: power_int_numeral_neg_numeral)
qed

lemma expo_le:
  assumes "- 1022 \<le> k" "\<bar>x\<bar> \<le> 2 powi k"
  shows "expo x \<le> k"
proof (cases "- 1022 < expo x")
  case True
  have "2 powi expo x \<le> (2::real) powi k"
    using expo_normal(1) [OF True] assms(2) by linarith
  then show ?thesis
    by (simp add: two_powi_le)
next
  case False
  then show ?thesis using assms(1) by simp
qed

lemma ulp_pos: "0 < ulp x"
  by (simp add: ulp_def two_powi_pos)

lemma roundEven_cases:
  "roundEven q = \<lfloor>q\<rfloor> \<or> roundEven q = \<lfloor>q\<rfloor> + 1"
  by (simp add: roundEven_def)

lemma roundEven_near: "\<bar>real_of_int (roundEven q) - q\<bar> \<le> 1 / 2"
proof -
  have "real_of_int \<lfloor>q\<rfloor> \<le> q" "q < real_of_int \<lfloor>q\<rfloor> + 1"
    by linarith+
  then show ?thesis
    unfolding roundEven_def by (auto simp: abs_le_iff)
qed

lemma roundEven_of_int: "roundEven (of_int n) = n"
  by (simp add: roundEven_def)

lemma abs_less_bound: "\<bar>y\<bar> < B \<Longrightarrow> \<not> B \<le> y \<and> \<not> y \<le> - B" for y B :: real
  by linarith

lemma toDouble_finite:
  assumes "\<bar>nearest x\<bar> < 2 ^ 1024"
  shows "toDouble x = Num (nearest x)"
  using abs_less_bound [OF assms] unfolding toDouble_def by (simp only: if_False)

lemma nearest_near: "\<bar>nearest x - x\<bar> \<le> ulp x / 2"
proof -
  define u where "u = ulp x"
  define r where "r = real_of_int (roundEven (x / u))"
  have u: "0 < u"
    unfolding u_def by (rule ulp_pos)
  have "nearest x - x = (r - x / u) * u"
    using u by (simp add: nearest_def r_def u_def left_diff_distrib)
  then have "\<bar>nearest x - x\<bar> = \<bar>r - x / u\<bar> * u"
    using u by (simp add: abs_mult)
  also have "\<dots> \<le> 1 / 2 * u"
    using roundEven_near [of "x / u"] u unfolding r_def by (intro mult_right_mono) simp_all
  finally show ?thesis by (simp add: u_def)
qed

text \<open>A bound on the rounding error from a bound on the number.\<close>

lemma toDouble_near:
  assumes "- 1022 \<le> k" "k \<le> 1023" "\<bar>x\<bar> \<le> 2 powi k"
  shows "\<exists>y. toDouble x = Num y \<and> \<bar>y - x\<bar> \<le> 2 powi (k - 53)"
proof -
  have "ulp x \<le> 2 powi (k - 52)"
    using expo_le [OF assms(1,3)] by (simp add: ulp_def two_powi_le)
  then have "ulp x / 2 \<le> 2 powi (k - 52) / 2"
    by simp
  also have "(2::real) powi (k - 52) / 2 = 2 powi (k - 53)"
    using two_powi_Suc [of "k - 53"] by simp
  finally have err: "\<bar>nearest x - x\<bar> \<le> 2 powi (k - 53)"
    using nearest_near [of x] by linarith
  have "(2::real) powi (k - 53) < 2 powi k" "(2::real) powi k \<le> 2 powi 1023"
    using assms(2) by (simp_all add: two_powi_less two_powi_le del: power_int_numeral)
  moreover have "(2::real) powi 1024 = 2 * 2 powi 1023"
    using two_powi_Suc [of 1023] by (simp del: power_int_numeral)
  ultimately have "\<bar>nearest x\<bar> < 2 powi 1024"
    using err assms(3) by linarith
  then have "\<bar>nearest x\<bar> < 2 ^ 1024"
    by (simp only: power_int_numeral)
  then have "toDouble x = Num (nearest x)"
    by (rule toDouble_finite)
  then show ?thesis
    using err by blast
qed

text \<open>A number with at most 53 significant bits, in the range of exponents, is a double.\<close>

lemma toDouble_exact:
  assumes "\<bar>m\<bar> < 2 ^ 53" "- 1074 \<le> t" "t \<le> 971"
  shows "toDouble (of_int m * 2 powi t) = Num (of_int m * 2 powi t)"
proof -
  define x where "x = real_of_int m * 2 powi t"
  have "t - (expo x - 52) \<ge> 0"
  proof (cases "- 1022 < expo x")
    case True
    have "real_of_int \<bar>m\<bar> < real_of_int (2 ^ 53)"
      using assms(1) by (rule iffD2 [OF of_int_less_iff])
    then have "\<bar>real_of_int m\<bar> < 2 powi 53"
      by simp
    then have "\<bar>x\<bar> < 2 powi 53 * 2 powi t"
      using two_powi_pos [of t] by (simp add: x_def abs_mult del: power_int_numeral)
    then have "2 powi expo x < (2::real) powi (53 + t)"
      using expo_normal(1) [OF True] by (simp add: power_int_add del: power_int_numeral)
    then show ?thesis
      by (simp add: two_powi_less)
  next
    case False
    then show ?thesis
      using assms(2) expo_ge [of x] by simp
  qed
  then obtain j where j: "t - (expo x - 52) = int j"
    using nonneg_int_cases by blast
  have "x / ulp x = real_of_int m * (2 powi t / 2 powi (expo x - 52))"
    by (simp add: x_def ulp_def)
  also have "(2::real) powi t / 2 powi (expo x - 52) = 2 powi (t - (expo x - 52))"
    by (simp add: power_int_diff)
  also have "\<dots> = 2 ^ j"
    unfolding j by simp
  finally have "x / ulp x = real_of_int (m * 2 ^ j)"
    by simp
  then have "nearest x = x / ulp x * ulp x"
    by (simp only: nearest_def roundEven_of_int)
  then have n: "nearest x = x"
    using ulp_pos [of x] by simp
  have t: "(2::real) powi t \<le> 2 powi 971"
    using assms(3) by (simp add: two_powi_le del: power_int_numeral)
  have "\<bar>x\<bar> < 2 ^ 1024"
  proof -
    have "real_of_int \<bar>m\<bar> < real_of_int (2 ^ 53)"
      using assms(1) by (rule iffD2 [OF of_int_less_iff])
    then have "\<bar>real_of_int m\<bar> < 2 powi 53"
      by simp
    then have "\<bar>real_of_int m\<bar> * 2 powi t < 2 powi 53 * 2 powi 971"
      using t two_powi_pos [of t]
      by (intro mult_less_le_imp_less) (simp_all del: power_int_numeral)
    also have "(2::real) powi 53 * 2 powi 971 = 2 powi 1024"
      by (simp add: power_int_add [symmetric] del: power_int_numeral)
    finally have "\<bar>real_of_int m\<bar> * 2 powi t < 2 ^ 1024"
      by (simp only: power_int_numeral)
    moreover have "\<bar>x\<bar> = \<bar>real_of_int m\<bar> * 2 powi t"
      using two_powi_pos [of t] by (simp add: x_def abs_mult)
    ultimately show ?thesis
      by (simp only:)
  qed
  then have "\<bar>nearest x\<bar> < 2 ^ 1024"
    by (simp only: n)
  then have "toDouble x = Num (nearest x)"
    by (rule toDouble_finite)
  then show ?thesis
    unfolding x_def [symmetric] by (simp only: n)
qed

text \<open>The rounded value, from the binade of the number.\<close>

lemma toDouble_binade:
  assumes "- 1022 \<le> e" "e < 1023" "2 powi e \<le> \<bar>x\<bar>" "\<bar>x\<bar> < 2 powi (e + 1)"
  shows "toDouble x = Num (of_int (roundEven (x / 2 powi (e - 52))) * 2 powi (e - 52))"
proof -
  have e: "expo x = e"
    using assms(1,3,4) by (rule expo_eqI)
  have "\<bar>x\<bar> \<le> 2 powi (e + 1)"
    using assms(4) by simp
  then obtain y where "toDouble x = Num y"
    using toDouble_near [of "e + 1" x] assms(1,2) by auto
  then have "toDouble x = Num (nearest x)"
    by (simp add: toDouble_def split: if_splits)
  then show ?thesis
    by (simp add: nearest_def ulp_def e)
qed

lemma toDouble_0: "toDouble 0 = Num 0"
  using toDouble_exact [of 0 0] by simp

lemma roundEven_ge: "real_of_int n \<le> q \<Longrightarrow> n \<le> roundEven q"
proof -
  assume "real_of_int n \<le> q"
  then have "n \<le> \<lfloor>q\<rfloor>"
    by (simp add: le_floor_iff)
  then show ?thesis
    using roundEven_cases [of q] by auto
qed

text \<open>A number of magnitude \<open>2 ^ 1024\<close> or more has no double.\<close>

lemma toDouble_overflow:
  assumes "2 ^ 1024 \<le> x"
  shows "toDouble x = PosInfinity"
proof -
  have x: "2 powi 1024 \<le> \<bar>x\<bar>" "0 < x"
    using assms by simp_all
  then have "2 powi 1024 < (2::real) powi (expo x + 1)"
    using expo_upper [of x] by linarith
  then have e: "1024 \<le> expo x"
    by (simp add: two_powi_less del: power_int_numeral)
  then have n: "- 1022 < expo x"
    by simp
  have c: "real_of_int (2 ^ 52) = 2 powi 52"
    by simp
  have p: "(2::real) powi 52 * ulp x = 2 powi expo x"
    unfolding ulp_def by (simp add: power_int_add [symmetric] del: power_int_numeral)
  then have "2 powi 52 * ulp x \<le> x"
    using expo_normal(1) [OF n] x(2) by (simp del: power_int_numeral)
  then have "2 powi 52 \<le> x / ulp x"
    using ulp_pos [of x] by (simp add: pos_le_divide_eq del: power_int_numeral)
  then have "real_of_int (2 ^ 52) \<le> x / ulp x"
    by (simp only: c)
  then have "2 ^ 52 \<le> roundEven (x / ulp x)"
    by (rule roundEven_ge)
  then have "real_of_int (2 ^ 52) \<le> real_of_int (roundEven (x / ulp x))"
    by (rule iffD2 [OF of_int_le_iff])
  then have "2 powi 52 \<le> real_of_int (roundEven (x / ulp x))"
    by (simp only: c)
  then have "2 powi 52 * ulp x \<le> nearest x"
    using ulp_pos [of x] unfolding nearest_def
    by (intro mult_right_mono) (simp_all del: power_int_numeral)
  moreover have "(2::real) powi 1024 \<le> 2 powi expo x"
    using e by (simp add: two_powi_le del: power_int_numeral)
  ultimately have "2 powi 1024 \<le> nearest x"
    unfolding p by linarith
  then have "2 ^ 1024 \<le> nearest x"
    by (simp only: power_int_numeral)
  then show ?thesis
    unfolding toDouble_def by (simp only: if_True)
qed

text \<open>The doubles of the literals \<open>0.5\<close>, \<open>0.3\<close> and \<open>0.2\<close>.\<close>

lemma toDouble_half: "toDouble 0.5 = Num (1 / 2)"
  using toDouble_exact [of 1 "- 1"] by simp

lemma toDouble_03: "toDouble 0.3 = Num (5404319552844595 / 18014398509481984)"
  using toDouble_binade [of "- 2" "0.3"] by (simp add: roundEven_def)

lemma toDouble_02: "toDouble 0.2 = Num (3602879701896397 / 18014398509481984)"
  using toDouble_binade [of "- 3" "0.2"] by (simp add: roundEven_def)

section \<open>Properties of the range buckets\<close>

lemma findIndex_Some_iff:
  "findIndex P xs = Some i \<longleftrightarrow> i < length xs \<and> P (xs ! i) \<and> (\<forall>j<i. \<not> P (xs ! j))"
proof (induction xs arbitrary: i)
  case Nil
  then show ?case by simp
next
  case (Cons x xs)
  show ?case
  proof (cases "P x")
    case True
    then show ?thesis by (cases i) auto
  next
    case False
    then show ?thesis
      using Cons.IH by (cases i) (auto simp: less_Suc_eq_0_disj)
  qed
qed

lemma findIndex_None_iff: "findIndex P xs = None \<longleftrightarrow> (\<forall>x\<in>set xs. \<not> P x)"
  by (induction xs) auto

lemma sum_list_bump:
  "i < length counts \<Longrightarrow> sum_list (counts[i := Suc (counts ! i)]) = Suc (sum_list counts)"
  by (simp add: sum_list_update)

lemma length_bump: "length (bump idx counts) = length counts"
  by (simp add: bump_def split: option.splits)

lemma map_snd_barItems:
  "length counts = length buckets \<Longrightarrow> map snd (barItems buckets counts) = counts"
  by (rule nth_equalityI) (simp_all add: barItems_def)

lemma lt_5_cases: "j < (5::nat) \<Longrightarrow> j = 0 \<or> j = Suc 0 \<or> j = 2 \<or> j = 3 \<or> j = 4"
  by arith

subsection \<open>Submission lag\<close>

lemma length_lagBuckets: "length lagBuckets = 5"
  by (simp add: lagBuckets_def)

lemma lag_index_table:
  "bucketIndex lagBuckets (Num h) =
     (if h \<le> 0 then Some 0 else if h \<le> 6 then Some 1 else if h \<le> 24 then Some 2
      else if h \<le> 72 then Some 3 else Some 4)"
  by (simp add: bucketIndex_def lagBuckets_def inBucket_def js_gt_def js_le_def)

lemma lag_index_bound: "\<exists>i<length lagBuckets. bucketIndex lagBuckets (Num h) = Some i"
  unfolding lag_index_table length_lagBuckets by simp

lemma inBucket_lag:
  "inBucket (Num h) (lagBuckets ! 0) \<longleftrightarrow> h \<le> 0"
  "inBucket (Num h) (lagBuckets ! Suc 0) \<longleftrightarrow> 0 < h \<and> h \<le> 6"
  "inBucket (Num h) (lagBuckets ! 2) \<longleftrightarrow> 6 < h \<and> h \<le> 24"
  "inBucket (Num h) (lagBuckets ! 3) \<longleftrightarrow> 24 < h \<and> h \<le> 72"
  "inBucket (Num h) (lagBuckets ! 4) \<longleftrightarrow> 72 < h"
  by (auto simp add: lagBuckets_def inBucket_def js_gt_def js_le_def)

lemma inBucket_lag_unique:
  assumes "i < length lagBuckets" "j < length lagBuckets"
    and "inBucket (Num h) (lagBuckets ! i)" "inBucket (Num h) (lagBuckets ! j)"
  shows "i = j"
proof -
  have "i = 0 \<or> i = Suc 0 \<or> i = 2 \<or> i = 3 \<or> i = 4"
    "j = 0 \<or> j = Suc 0 \<or> j = 2 \<or> j = 3 \<or> j = 4"
    using assms(1,2) lt_5_cases [of i] lt_5_cases [of j] unfolding length_lagBuckets by blast+
  then show ?thesis
    using assms(3,4) by (elim disjE) (simp_all add: inBucket_lag)
qed

lemma lag_label_table:
  "map_option (\<lambda>i. label (lagBuckets ! i)) (bucketIndex lagBuckets (Num h)) =
     Some (if h \<le> 0 then ''overdue'' else if h \<le> 6 then ''0-6h''
           else if h \<le> 24 then ''6-24h'' else if h \<le> 72 then ''1-3d'' else ''>3d'')"
  unfolding lag_index_table by (simp add: lagBuckets_def)

text \<open>
  C1 (as amended). A lag of \<open>h \<ge> 0\<close> hours is assigned to exactly one lag bucket, the
  only one (hence the first) with \<open>min < h \<le> max\<close>: "overdue" for 0, "0-6h" up to and
  including 6, "6-24h" up to and including 24, "1-3d" up to and including 72, ">3d"
  beyond. So the boundary value 6 lands in "0-6h".
\<close>

theorem lag_bucket_first_match:
  assumes "0 \<le> h"
  shows "(\<exists>i. bucketIndex lagBuckets (Num h) = Some i \<and> i < length lagBuckets \<and>
              inBucket (Num h) (lagBuckets ! i) \<and>
              (\<forall>j<length lagBuckets. j \<noteq> i \<longrightarrow> \<not> inBucket (Num h) (lagBuckets ! j))) \<and>
         map_option (\<lambda>i. label (lagBuckets ! i)) (bucketIndex lagBuckets (Num h)) =
           Some (if h = 0 then ''overdue'' else if h \<le> 6 then ''0-6h''
                 else if h \<le> 24 then ''6-24h'' else if h \<le> 72 then ''1-3d'' else ''>3d'')"
proof -
  obtain i where i: "bucketIndex lagBuckets (Num h) = Some i"
    using lag_index_bound by blast
  then have fi: "i < length lagBuckets" "inBucket (Num h) (lagBuckets ! i)"
    by (simp_all add: bucketIndex_def findIndex_Some_iff)
  have "\<not> inBucket (Num h) (lagBuckets ! j)" if "j < length lagBuckets" "j \<noteq> i" for j
    using inBucket_lag_unique [OF fi(1) that(1) fi(2)] that(2) by blast
  moreover have "(h \<le> 0) = (h = 0)"
    using assms by auto
  ultimately show ?thesis
    using i fi lag_label_table [of h] by simp
qed

theorem lag_bucket_first_match_witness:
  "bucketIndex lagBuckets (Num 6) = Some 1 \<and>
   map_option (\<lambda>i. label (lagBuckets ! i)) (bucketIndex lagBuckets (Num 6)) = Some ''0-6h''"
proof -
  have h: "(0::real) \<le> 6" by simp
  show ?thesis
    using lag_bucket_first_match [OF h] by (simp add: lag_index_table)
qed

text \<open>
  A record submitted exactly 6 hours before its deadline is counted under "0-6h" and not
  under "6-24h".
\<close>

theorem lag_six_hours_counterexample:
  "submissionLagBuckets
     [\<lparr>courseId = ''c'', deadline = Some (Date 21600000), submitted = True,
       submitTime = Some (Date 0), submittedAttachment = None\<rparr>] =
   [(''overdue'', 0), (''0-6h'', 1), (''6-24h'', 0), (''1-3d'', 0), (''>3d'', 0)]"
  by (simp add: submissionLagBuckets_def barItems_def lagCounts_def lagStep_def
      submittedHomeworks_def submittedAll_def submitTimeOf_def diffHours_def js_sub_def
      bucketIndex_def lagBuckets_def inBucket_def js_gt_def js_le_def bump_def upt_rec)

lemma isFinite_Num: "isFinite x \<Longrightarrow> \<exists>h. x = Num h"
  by (cases x) auto

lemma length_lagStep: "length (lagStep hw counts) = length counts"
  by (simp add: lagStep_def length_bump split: option.splits)

lemma length_fold_lagStep: "length (fold lagStep xs counts) = length counts"
  by (induction xs arbitrary: counts) (simp_all add: length_lagStep)

lemma sum_lagStep:
  assumes "length counts = length lagBuckets"
    and "\<And>d. deadline hw = Some d \<Longrightarrow> isFinite (diffHours d (submitTimeOf hw))"
  shows "sum_list (lagStep hw counts) = sum_list counts + (if deadline hw = None then 0 else 1)"
proof (cases "deadline hw")
  case None
  then show ?thesis by (simp add: lagStep_def)
next
  case (Some d)
  then obtain h where h: "diffHours d (submitTimeOf hw) = Num h"
    using assms(2) isFinite_Num by blast
  obtain i where "i < length lagBuckets" "bucketIndex lagBuckets (Num h) = Some i"
    using lag_index_bound by blast
  then show ?thesis
    using Some h assms(1) by (simp add: lagStep_def bump_def sum_list_bump)
qed

lemma sum_fold_lagStep:
  assumes "length counts = length lagBuckets"
    and "\<forall>hw\<in>set xs. \<forall>d. deadline hw = Some d \<longrightarrow> isFinite (diffHours d (submitTimeOf hw))"
  shows "sum_list (fold lagStep xs counts) =
         sum_list counts + length (filter (\<lambda>hw. deadline hw \<noteq> None) xs)"
  using assms
proof (induction xs arbitrary: counts)
  case Nil
  then show ?case by simp
next
  case (Cons x xs)
  have "sum_list (lagStep x counts) = sum_list counts + (if deadline x = None then 0 else 1)"
    using Cons.prems by (intro sum_lagStep) auto
  moreover have "sum_list (fold lagStep xs (lagStep x counts)) =
      sum_list (lagStep x counts) + length (filter (\<lambda>hw. deadline hw \<noteq> None) xs)"
    using Cons.prems by (intro Cons.IH) (auto simp: length_lagStep)
  ultimately show ?case by simp
qed

text \<open>
  C9. Every finite lag lies in exactly one of the five lag buckets. Hence, when every
  submitted record with a deadline has a submit time and a finite lag, the counts of the
  lag histogram sum to the number of submitted records with a deadline.
\<close>

theorem lag_counts_total:
  assumes "\<forall>hw\<in>set homeworks. submitted hw \<and> deadline hw \<noteq> None \<longrightarrow>
             submitTime hw \<noteq> None \<and> isFinite (diffHours (deadlineOf hw) (submitTimeOf hw))"
  shows "(\<forall>h. \<exists>!i. i < length lagBuckets \<and> inBucket (Num h) (lagBuckets ! i)) \<and>
         sum_list (map snd (submissionLagBuckets homeworks)) =
           length (filter (\<lambda>hw. submitted hw \<and> deadline hw \<noteq> None) homeworks)"
proof -
  have one: "\<exists>!i. i < length lagBuckets \<and> inBucket (Num h) (lagBuckets ! i)" for h
  proof -
    obtain i where i: "bucketIndex lagBuckets (Num h) = Some i"
      using lag_index_bound by blast
    then have fi: "i < length lagBuckets" "inBucket (Num h) (lagBuckets ! i)"
      by (simp_all add: bucketIndex_def findIndex_Some_iff)
    have "j = i" if "j < length lagBuckets" "inBucket (Num h) (lagBuckets ! j)" for j
      using inBucket_lag_unique [OF that(1) fi(1) that(2) fi(2)] .
    with fi show ?thesis by blast
  qed
  have fin: "\<forall>hw\<in>set (submittedHomeworks homeworks). \<forall>d. deadline hw = Some d \<longrightarrow>
      isFinite (diffHours d (submitTimeOf hw))"
    using assms by (auto simp: submittedHomeworks_def submittedAll_def deadlineOf_def)
  have "sum_list (lagCounts homeworks) =
      length (filter (\<lambda>hw. deadline hw \<noteq> None) (submittedHomeworks homeworks))"
    unfolding lagCounts_def using fin by (subst sum_fold_lagStep) simp_all
  moreover have "filter (\<lambda>hw. deadline hw \<noteq> None) (submittedHomeworks homeworks) =
      filter (\<lambda>hw. submitted hw \<and> deadline hw \<noteq> None) homeworks"
    unfolding submittedHomeworks_def submittedAll_def filter_filter
    using assms by (intro filter_cong) auto
  moreover have "map snd (submissionLagBuckets homeworks) = lagCounts homeworks"
    unfolding submissionLagBuckets_def
    by (rule map_snd_barItems) (simp add: lagCounts_def length_fold_lagStep)
  ultimately show ?thesis using one by simp
qed

theorem lag_counts_total_witness:
  "sum_list (map snd (submissionLagBuckets
     [\<lparr>courseId = ''a'', deadline = Some (Date 7200000), submitted = True,
       submitTime = Some (Date 10800000), submittedAttachment = None\<rparr>,
      \<lparr>courseId = ''a'', deadline = None, submitted = True,
       submitTime = Some (Date 0), submittedAttachment = None\<rparr>,
      \<lparr>courseId = ''b'', deadline = Some (Date 360000000), submitted = True,
       submitTime = Some (Date 0), submittedAttachment = None\<rparr>,
      \<lparr>courseId = ''b'', deadline = Some (Date 5), submitted = False,
       submitTime = None, submittedAttachment = None\<rparr>])) = 2"
  by (rule lag_counts_total [THEN conjunct2, THEN trans])
    (simp_all add: diffHours_def deadlineOf_def submitTimeOf_def js_sub_def)

section \<open>Properties of the rates\<close>


lemma ratio_unit: "c \<le> n \<Longrightarrow> n \<noteq> 0 \<Longrightarrow> \<exists>r. ratio c n = Num r \<and> 0 \<le> r \<and> r \<le> 1"
  by (simp add: ratio_def)








subsection \<open>Pending risk\<close>




lemma length_fold_bump:
  assumes "\<And>x counts. step x counts = bump (f x) counts"
  shows "length (fold step xs counts) = length counts"
proof (induction xs arbitrary: counts)
  case Nil
  then show ?case by simp
next
  case (Cons x xs)
  have "fold step (x # xs) counts = fold step xs (bump (f x) counts)"
    by (simp only: fold_simps comp_apply assms)
  then show ?case
    by (simp only: Cons.IH length_bump)
qed

lemma length_riskBuckets: "length riskBuckets = 4"
  by (simp add: riskBuckets_def)

lemma hours_cmp:
  "(real_of_int m / 3600000 < 0) = (m < 0)"
  "(0 < real_of_int m / 3600000) = (0 < m)"
  "(6 < real_of_int m / 3600000) = (21600000 < m)"
  "(24 < real_of_int m / 3600000) = (86400000 < m)"
  "(72 < real_of_int m / 3600000) = (259200000 < m)"
  by (simp_all add: less_divide_eq divide_less_eq)

lemma riskStep_bump: "riskStep now hw counts = bump (riskIndex now hw) counts"
proof (cases "deadline hw")
  case None
  then show ?thesis
    by (simp add: riskStep_def deadlineOf_def js_sub_def riskIndex_def msUntil_def
        bucketIndex_def riskBuckets_def inBucket_def js_gt_def js_le_def bump_def)
next
  case (Some D)
  show ?thesis
  proof (cases D)
    case InvalidDate
    then show ?thesis
      using Some by (simp add: riskStep_def deadlineOf_def js_sub_def riskIndex_def msUntil_def
          bucketIndex_def riskBuckets_def inBucket_def js_gt_def js_le_def bump_def)
  next
    case (Date d)
    have "js_div (js_sub (getTime (Date d)) (Num (real_of_int now))) (Num 3600000) =
          Num (real_of_int (d - now) / 3600000)"
      by (simp add: js_sub_def)
    then show ?thesis
      using Some Date
      by (simp add: riskStep_def deadlineOf_def riskIndex_def msUntil_def bucketIndex_def
          riskBuckets_def inBucket_def js_gt_def js_le_def bump_def hours_cmp Let_def
          numeral_2_eq_2 numeral_3_eq_3)
  qed
qed

lemma sum_fold_bump:
  assumes "\<And>x counts. step x counts = bump (f x) counts"
    and "\<forall>x\<in>set xs. \<forall>i. f x = Some i \<longrightarrow> i < length counts"
  shows "sum_list (fold step xs counts) =
         sum_list counts + length (filter (\<lambda>x. f x \<noteq> None) xs)"
  using assms(2)
proof (induction xs arbitrary: counts)
  case Nil
  then show ?case by simp
next
  case (Cons x xs)
  have "sum_list (fold step (x # xs) counts) = sum_list (fold step xs (bump (f x) counts))"
    by (simp only: fold_simps comp_apply assms(1))
  also have "\<dots> = sum_list (bump (f x) counts) + length (filter (\<lambda>x. f x \<noteq> None) xs)"
    using Cons.prems by (intro Cons.IH) (simp add: length_bump)
  also have "sum_list (bump (f x) counts) = sum_list counts + (if f x = None then 0 else 1)"
    using Cons.prems by (cases "f x") (simp_all add: bump_def sum_list_bump)
  finally show ?case by simp
qed

lemma length_4: "length xs = 4 \<Longrightarrow> \<exists>a b c d. xs = [a, b, c, d]"
  by (cases xs; simp; cases "tl xs"; simp; cases "tl (tl xs)"; simp; cases "tl (tl (tl xs))"; simp)





lemma riskCounts_length: "length (riskCounts now homeworks) = 4"
  unfolding riskCounts_def
  using length_fold_bump [of "riskStep now" "riskIndex now" "pending homeworks"
      "replicate (length riskBuckets) 0"]
  by (simp add: riskStep_bump length_riskBuckets)







subsection \<open>Guarded divisions\<close>

lemma filter_ratio: "xs \<noteq> [] \<Longrightarrow> \<exists>r. ratio (length (filter P xs)) (length xs) = Num r \<and> 0 \<le> r \<and> r \<le> 1"
  by (rule ratio_unit) simp_all

lemma submissionRate_unit: "\<exists>r. submissionRate homeworks = Num r \<and> 0 \<le> r \<and> r \<le> 1"
  using filter_ratio [of homeworks submitted]
  by (cases "homeworks = []") (simp_all add: submissionRate_def submittedAll_def)

lemma nightRate_unit: "\<exists>r. nightRate tz homeworks = Num r \<and> 0 \<le> r \<and> r \<le> 1"
  unfolding nightRate_def Let_def
  using filter_ratio [of "submittedHomeworks homeworks"]
  by (cases "submittedHomeworks homeworks = []") simp_all

lemma weekendRate_unit: "\<exists>r. weekendRate tz homeworks = Num r \<and> 0 \<le> r \<and> r \<le> 1"
  unfolding weekendRate_def Let_def
  using filter_ratio [of "submittedHomeworks homeworks"]
  by (cases "submittedHomeworks homeworks = []") simp_all

lemma lateRate_unit: "\<exists>r. lateRate homeworks = Num r \<and> 0 \<le> r \<and> r \<le> 1"
  unfolding lateRate_def Let_def
  using filter_ratio [of "submittedHomeworks homeworks"]
  by (cases "submittedHomeworks homeworks = []") simp_all

lemma last6Rate_unit: "\<exists>r. last6Rate homeworks = Num r \<and> 0 \<le> r \<and> r \<le> 1"
  unfolding last6Rate_def Let_def
  using filter_ratio [of "leadHours homeworks"]
  by (cases "leadHours homeworks = []") simp_all

lemma last24Rate_unit: "\<exists>r. last24Rate homeworks = Num r \<and> 0 \<le> r \<and> r \<le> 1"
  unfolding last24Rate_def Let_def
  using filter_ratio [of "leadHours homeworks"]
  by (cases "leadHours homeworks = []") simp_all

lemma riskScore_unit: "\<exists>r. riskScore (pendingRisk now homeworks) = Num r \<and> 0 \<le> r \<and> r \<le> 1"
proof -
  obtain a b c d where abcd: "riskCounts now homeworks = [a, b, c, d]"
    using length_4 [OF riskCounts_length] by blast
  show ?thesis
  proof (cases "a + b + c + d = 0")
    case True
    then show ?thesis
      by (simp add: pendingRisk_def Let_def abcd)
  next
    case False
    then have "\<exists>r. ratio (a + b) (a + b + c + d) = Num r \<and> 0 \<le> r \<and> r \<le> 1"
      by (intro ratio_unit) simp_all
    then show ?thesis
      using False by (simp add: pendingRisk_def Let_def abcd add.assoc)
  qed
qed

text \<open>
  C8. Every rate is a finite number between 0 and 1, never NaN or an infinity, and is 0
  when its denominator is 0: the number of records for \<open>submissionRate\<close>, the number of
  submitted records with a submit time for the night, weekend and late rates, the number
  of entries of \<open>leadHours\<close> for the two near-deadline rates, and the total of the
  pending-risk distribution for \<open>riskScore\<close>.
\<close>

theorem rates_guarded:
  "(\<exists>r. submissionRate homeworks = Num r \<and> 0 \<le> r \<and> r \<le> 1) \<and>
   (length homeworks = 0 \<longrightarrow> submissionRate homeworks = Num 0) \<and>
   (\<exists>r. nightRate tz homeworks = Num r \<and> 0 \<le> r \<and> r \<le> 1) \<and>
   (length (submittedHomeworks homeworks) = 0 \<longrightarrow> nightRate tz homeworks = Num 0) \<and>
   (\<exists>r. weekendRate tz homeworks = Num r \<and> 0 \<le> r \<and> r \<le> 1) \<and>
   (length (submittedHomeworks homeworks) = 0 \<longrightarrow> weekendRate tz homeworks = Num 0) \<and>
   (\<exists>r. lateRate homeworks = Num r \<and> 0 \<le> r \<and> r \<le> 1) \<and>
   (length (submittedHomeworks homeworks) = 0 \<longrightarrow> lateRate homeworks = Num 0) \<and>
   (\<exists>r. last6Rate homeworks = Num r \<and> 0 \<le> r \<and> r \<le> 1) \<and>
   (length (leadHours homeworks) = 0 \<longrightarrow> last6Rate homeworks = Num 0) \<and>
   (\<exists>r. last24Rate homeworks = Num r \<and> 0 \<le> r \<and> r \<le> 1) \<and>
   (length (leadHours homeworks) = 0 \<longrightarrow> last24Rate homeworks = Num 0) \<and>
   (\<exists>r. riskScore (pendingRisk now homeworks) = Num r \<and> 0 \<le> r \<and> r \<le> 1) \<and>
   (total_risk (pendingRisk now homeworks) = 0 \<longrightarrow>
      riskScore (pendingRisk now homeworks) = Num 0)"
proof -
  have "length homeworks = 0 \<longrightarrow> submissionRate homeworks = Num 0"
    by (simp add: submissionRate_def)
  moreover have "length (submittedHomeworks homeworks) = 0 \<longrightarrow> nightRate tz homeworks = Num 0"
    by (simp add: nightRate_def)
  moreover have "length (submittedHomeworks homeworks) = 0 \<longrightarrow> weekendRate tz homeworks = Num 0"
    by (simp add: weekendRate_def)
  moreover have "length (submittedHomeworks homeworks) = 0 \<longrightarrow> lateRate homeworks = Num 0"
    by (simp add: lateRate_def)
  moreover have "length (leadHours homeworks) = 0 \<longrightarrow> last6Rate homeworks = Num 0"
    by (simp add: last6Rate_def)
  moreover have "length (leadHours homeworks) = 0 \<longrightarrow> last24Rate homeworks = Num 0"
    by (simp add: last24Rate_def)
  moreover have "total_risk (pendingRisk now homeworks) = 0 \<longrightarrow>
      riskScore (pendingRisk now homeworks) = Num 0"
    by (simp add: pendingRisk_def Let_def)
  ultimately show ?thesis
    using submissionRate_unit nightRate_unit weekendRate_unit lateRate_unit last6Rate_unit
      last24Rate_unit riskScore_unit
    by blast
qed

theorem rates_guarded_witness:
  "submissionRate [] = Num 0 \<and> nightRate 0 [] = Num 0 \<and> weekendRate 0 [] = Num 0 \<and>
   lateRate [] = Num 0 \<and> last6Rate [] = Num 0 \<and> last24Rate [] = Num 0 \<and>
   riskScore (pendingRisk 0 []) = Num 0"
proof -
  have h: "length ([] :: Homework list) = 0" "length (submittedHomeworks []) = 0"
    "length (leadHours []) = 0" "total_risk (pendingRisk 0 []) = 0"
    by (simp_all add: submittedHomeworks_def submittedAll_def leadHours_def pendingRisk_def
        riskCounts_def pending_def riskBuckets_def)
  show ?thesis
    using rates_guarded [of "[]" 0 0] h by blast
qed

subsection \<open>Procrastination profile\<close>



text \<open>The profile, from the doubles of the six operations.\<close>

lemma profile_steps:
  assumes "toDouble (l * (1 / 2)) = Num p1"
    and "toDouble (a * (5404319552844595 / 18014398509481984)) = Num p2"
    and "toDouble (b * (3602879701896397 / 18014398509481984)) = Num p3"
    and "toDouble (p1 + p2) = Num s1" "toDouble (s1 + p3) = Num s2"
    and "toDouble (min 1 s2 * 100) = Num y"
  shows "procrastinationProfile (Num l) (Num a) (Num b) =
      (if 80 < \<lfloor>y + 1 / 2\<rfloor> then
         \<lparr>score = Num (of_int \<lfloor>y + 1 / 2\<rfloor>), label_p = ''extreme'',
          desc = ''often submits at the last moment''\<rparr>
       else if 60 < \<lfloor>y + 1 / 2\<rfloor> then
         \<lparr>score = Num (of_int \<lfloor>y + 1 / 2\<rfloor>), label_p = ''sprinter'',
          desc = ''mostly submits before the deadline''\<rparr>
       else if 40 < \<lfloor>y + 1 / 2\<rfloor> then
         \<lparr>score = Num (of_int \<lfloor>y + 1 / 2\<rfloor>), label_p = ''borderline'',
          desc = ''stop and go, sometimes on the line''\<rparr>
       else if 20 < \<lfloor>y + 1 / 2\<rfloor> then
         \<lparr>score = Num (of_int \<lfloor>y + 1 / 2\<rfloor>), label_p = ''steady'',
          desc = ''steady pace, high completion''\<rparr>
       else
         \<lparr>score = Num (of_int \<lfloor>y + 1 / 2\<rfloor>), label_p = ''planner'',
          desc = ''plans ahead, rarely delays''\<rparr>)"
proof -
  define s where "s = \<lfloor>y + 1 / 2\<rfloor>"
  have raw: "dbl_add (dbl_add (dbl_mul (Num l) (toDouble 0.5)) (dbl_mul (Num a) (toDouble 0.3)))
      (dbl_mul (Num b) (toDouble 0.2)) = Num s2"
    by (simp only: toDouble_half toDouble_03 toDouble_02 dbl_add_def dbl_mul_def js_mul.simps
        js_add.simps rounded.simps assms)
  have m: "mathMin (Num 1) (Num s2) = Num (min 1 s2)"
    by (simp add: mathMin_def min_def)
  have sc: "mathRound (dbl_mul (mathMin (Num 1) (Num s2)) (Num 100)) = Num (of_int s)"
    by (simp only: m dbl_mul_def js_mul.simps rounded.simps assms(6) mathRound.simps s_def)
  have gt: "js_gt (Num (of_int s)) (Num (real_of_int k)) = (k < s)" for k
    by (simp add: js_gt_def)
  show ?thesis
    unfolding procrastinationProfile_def Let_def raw sc s_def [symmetric]
    using gt [of 80] gt [of 60] gt [of 40] gt [of 20] by simp
qed



text \<open>
  At a tie the rounding of the doubles decides. For the rates 0, 0.75 and 0 the weighted
  sum is 0.225, the product of the doubles is just below 22.5, and the score is 22; for
  the rates 0.08, 0.75 and 0.7 the weighted sum is 0.405 and the score is 40, "steady".
\<close>

lemma profile_tie_22:
  "procrastinationProfile (Num 0) (Num (3 / 4)) (Num 0) =
     \<lparr>score = Num 22, label_p = ''steady'', desc = ''steady pace, high completion''\<rparr>"
proof -
  have p1: "toDouble (0 * (1 / 2)) = Num 0"
    using toDouble_0 by simp
  have p2: "toDouble ((3 / 4) * (5404319552844595 / 18014398509481984)) =
      Num (2026619832316723 / 9007199254740992)"
    using toDouble_binade [of "- 3" "(3 / 4) * (5404319552844595 / 18014398509481984)"]
    by (simp add: roundEven_def)
  have p3: "toDouble (0 * (3602879701896397 / 18014398509481984)) = Num 0"
    using toDouble_0 by simp
  have s1: "toDouble (0 + (2026619832316723 / 9007199254740992)) =
      Num (2026619832316723 / 9007199254740992)"
    using toDouble_binade [of "- 3" "0 + (2026619832316723 / 9007199254740992)"]
    by (simp add: roundEven_def)
  have s2: "toDouble ((2026619832316723 / 9007199254740992) + 0) =
      Num (2026619832316723 / 9007199254740992)"
    using toDouble_binade [of "- 3" "(2026619832316723 / 9007199254740992) + 0"]
    by (simp add: roundEven_def)
  have y: "toDouble (min 1 (2026619832316723 / 9007199254740992) * 100) =
      Num (6333186975989759 / 281474976710656)"
    using toDouble_binade [of "4" "min 1 (2026619832316723 / 9007199254740992) * 100"]
    by (simp add: roundEven_def)
  show ?thesis
    using profile_steps [OF p1 p2 p3 s1 s2 y] by simp
qed

lemma profile_tie_40:
  "procrastinationProfile (toDouble 0.08) (Num (3 / 4)) (toDouble 0.7) =
     \<lparr>score = Num 40, label_p = ''steady'', desc = ''steady pace, high completion''\<rparr>"
proof -
  have r: "toDouble 0.08 = Num (5764607523034235 / 72057594037927936)" "toDouble 0.7 =
      Num (3152519739159347 / 4503599627370496)"
    using toDouble_binade [of "- 4" "0.08"] toDouble_binade [of "- 1" "0.7"]
    by (simp_all add: roundEven_def)
  have p1: "toDouble ((5764607523034235 / 72057594037927936) * (1 / 2)) =
      Num (5764607523034235 / 144115188075855872)"
    using toDouble_binade [of "- 5" "(5764607523034235 / 72057594037927936) * (1 / 2)"]
    by (simp add: roundEven_def)
  have p2: "toDouble ((3 / 4) * (5404319552844595 / 18014398509481984)) =
      Num (2026619832316723 / 9007199254740992)"
    using toDouble_binade [of "- 3" "(3 / 4) * (5404319552844595 / 18014398509481984)"]
    by (simp add: roundEven_def)
  have p3: "toDouble ((3152519739159347 / 4503599627370496) * (3602879701896397 / 18014398509481984)) =
      Num (5044031582654955 / 36028797018963968)"
    using toDouble_binade [of "- 3"
        "(3152519739159347 / 4503599627370496) * (3602879701896397 / 18014398509481984)"]
    by (simp add: roundEven_def)
  have s1: "toDouble ((5764607523034235 / 144115188075855872) + (2026619832316723 / 9007199254740992)) =
      Num (4773815605012725 / 18014398509481984)"
    using toDouble_binade [of "- 2"
        "(5764607523034235 / 144115188075855872) + (2026619832316723 / 9007199254740992)"]
    by (simp add: roundEven_def)
  have s2: "toDouble ((4773815605012725 / 18014398509481984) + (5044031582654955 / 36028797018963968)) =
      Num (3647915698170101 / 9007199254740992)"
    using toDouble_binade [of "- 2"
        "(4773815605012725 / 18014398509481984) + (5044031582654955 / 36028797018963968)"]
    by (simp add: roundEven_def)
  have y: "toDouble (min 1 (3647915698170101 / 9007199254740992) * 100) =
      Num (5699868278390783 / 140737488355328)"
    using toDouble_binade [of "5" "min 1 (3647915698170101 / 9007199254740992) * 100"]
    by (simp add: roundEven_def)
  show ?thesis
    unfolding r using profile_steps [OF p1 p2 p3 s1 s2 y] by simp
qed

section \<open>Properties of the attachment statistics\<close>

lemma length_sizeBuckets: "length sizeBuckets = 5"
  by (simp add: sizeBuckets_def)

lemma size_zero_no_bucket: "bucketIndex sizeBuckets (Num 0) = None"
  by (simp add: bucketIndex_def sizeBuckets_def inBucket_def js_gt_def js_le_def)

lemma sizeIndex_bound: "bucketIndex sizeBuckets sz = Some i \<Longrightarrow> i < 5"
  by (simp add: bucketIndex_def findIndex_Some_iff length_sizeBuckets)

lemma sizeStep_zero: "sizeStep (Num 0) counts = counts"
  by (simp add: sizeStep_def size_zero_no_bucket bump_def)

lemma sizeOf_finite: "sz \<in> set (sizeOf file) \<Longrightarrow> \<exists>r. sz = Num r"
  by (auto simp: sizeOf_def isFinite_Num split: option.splits if_splits)

lemma sizes_Num: "\<exists>rs. sizes homeworks = map Num rs"
proof -
  have "\<forall>sz\<in>set (sizes homeworks). \<exists>r. sz = Num r"
    by (auto simp: sizes_def dest: sizeOf_finite)
  then show ?thesis
  proof (induction "sizes homeworks" arbitrary: homeworks)
    case Nil
    then show ?case by simp
  next
    case (Cons a x)
    then show ?case
      by (metis ex_map_conv)
  qed
qed

lemma foldl_js_add_Num: "foldl js_add (Num a) (map Num rs) = Num (a + sum_list rs)"
  by (induction rs arbitrary: a) (simp_all add: add.assoc)

lemma attachments_append:
  "attachments (xs @ ys) = attachments xs @ attachments ys"
  by (simp add: attachments_def submittedAll_def)

lemma sizes_append: "sizes (xs @ ys) = sizes xs @ sizes ys"
  by (simp add: sizes_def attachments_append)

lemma attachments_single:
  "submitted hw \<Longrightarrow> submittedAttachment hw = Some att \<Longrightarrow> attachments [hw] = [Some att]"
  by (simp add: attachments_def submittedAll_def)

lemma sizes_single_zero:
  assumes "submitted hw" "submittedAttachment hw = Some att"
    and "parseSizeToBytes (size_att att) = Some (Num 0)"
  shows "sizes [hw] = [Num 0]"
  using assms by (simp add: sizes_def attachments_single sizeOf_def)

lemma sizeCounts_sum:
  "sum_list (fold sizeStep szs (replicate (length sizeBuckets) 0)) =
   length (filter (\<lambda>sz. bucketIndex sizeBuckets sz \<noteq> None) szs)"
  using sum_fold_bump [of sizeStep "bucketIndex sizeBuckets" szs
      "replicate (length sizeBuckets) 0"]
  by (simp add: sizeStep_def length_sizeBuckets sizeIndex_bound)

lemma sizeCounts_length:
  "length (fold sizeStep szs (replicate (length sizeBuckets) 0)) = length sizeBuckets"
  using length_fold_bump [of sizeStep "bucketIndex sizeBuckets" szs
      "replicate (length sizeBuckets) 0"]
  by (simp add: sizeStep_def)

text \<open>
  C10. A submitted record with an attachment whose size parses to exactly 0 bytes adds one
  to \<open>total\<close>, leaves \<open>totalSize\<close> and every bucket count as they are without it, and so
  the bucket counts sum to fewer than the number of parseable sizes.
\<close>

theorem zero_size_attachment:
  assumes "submitted hw" "submittedAttachment hw = Some att"
    and "parseSizeToBytes (size_att att) = Some (Num 0)"
  shows "total (attachmentStats (pre @ hw # post)) = total (attachmentStats (pre @ post)) + 1 \<and>
         totalSize (attachmentStats (pre @ hw # post)) = totalSize (attachmentStats (pre @ post)) \<and>
         bucketItems (attachmentStats (pre @ hw # post)) =
           bucketItems (attachmentStats (pre @ post)) \<and>
         sum_list (map snd (bucketItems (attachmentStats (pre @ hw # post)))) <
           length (sizes (pre @ hw # post))"
proof -
  have att: "attachments (hw # post) = Some att # attachments post"
    using assms(1,2) by (simp add: attachments_def submittedAll_def)
  have sz: "sizes (hw # post) = Num 0 # sizes post"
    using assms(3) by (simp add: sizes_def att sizeOf_def)
  have t: "total (attachmentStats (pre @ hw # post)) = total (attachmentStats (pre @ post)) + 1"
    by (simp add: attachmentStats_def attachments_append att)
  obtain rs1 rs2 where rs: "sizes pre = map Num rs1" "sizes post = map Num rs2"
    using sizes_Num by blast
  have ts: "totalSize (attachmentStats (pre @ hw # post)) =
      totalSize (attachmentStats (pre @ post))"
    by (simp add: attachmentStats_def sizes_append sz rs foldl_js_add_Num)
  have cnt: "fold sizeStep (sizes (pre @ hw # post)) c = fold sizeStep (sizes (pre @ post)) c" for c
    by (simp add: sizes_append sz sizeStep_zero)
  then have b: "bucketItems (attachmentStats (pre @ hw # post)) =
      bucketItems (attachmentStats (pre @ post))"
    by (simp add: attachmentStats_def)
  have "map snd (bucketItems (attachmentStats (pre @ hw # post))) =
      fold sizeStep (sizes (pre @ hw # post)) (replicate (length sizeBuckets) 0)"
    unfolding attachmentStats_def
    by (simp add: map_snd_barItems sizeCounts_length)
  moreover have "length (filter (\<lambda>sz. bucketIndex sizeBuckets sz \<noteq> None) (sizes (pre @ hw # post))) <
      length (sizes (pre @ hw # post))"
    by (rule length_filter_less [of "Num 0"]) (simp_all add: sizes_append sz size_zero_no_bucket)
  ultimately have "sum_list (map snd (bucketItems (attachmentStats (pre @ hw # post)))) <
      length (sizes (pre @ hw # post))"
    by (simp only: sizeCounts_sum)
  with t ts b show ?thesis by blast
qed

theorem zero_size_attachment_witness:
  "attachmentStats
     [\<lparr>courseId = ''c'', deadline = None, submitted = True, submitTime = Some (Date 0),
       submittedAttachment = Some \<lparr>size_att = Some (SizeText ''0'')\<rparr>\<rparr>] =
   \<lparr>total = 1, totalSize = Num 0,
    bucketItems = [(''<100KB'', 0), (''100KB-1MB'', 0), (''1-5MB'', 0), (''5-20MB'', 0),
                   (''>20MB'', 0)]\<rparr> \<and>
   sizes
     [\<lparr>courseId = ''c'', deadline = None, submitted = True, submitTime = Some (Date 0),
       submittedAttachment = Some \<lparr>size_att = Some (SizeText ''0'')\<rparr>\<rparr>] = [Num 0]"
proof -
  let ?att = "\<lparr>size_att = Some (SizeText ''0'')\<rparr>"
  let ?hw = "\<lparr>courseId = ''c'', deadline = None, submitted = True, submitTime = Some (Date 0),
       submittedAttachment = Some ?att\<rparr>"
  have p: "parseSizeToBytes (size_att ?att) = Some (Num 0)"
    by (simp add: parseSizeText_def rawOf_def trim_def isSpace_def isDigit_def parseInt_def
        decVal_def digitVal_def toDouble_0)
  have h: "submitted ?hw" "submittedAttachment ?hw = Some ?att"
    by simp_all
  have e: "attachmentStats [] =
     \<lparr>total = 0, totalSize = Num 0,
      bucketItems = [(''<100KB'', 0), (''100KB-1MB'', 0), (''1-5MB'', 0), (''5-20MB'', 0),
                     (''>20MB'', 0)]\<rparr>"
    by (simp add: attachmentStats_def attachments_def submittedAll_def sizes_def barItems_def
        sizeBuckets_def upt_rec)
  have s: "sizes [?hw] = [Num 0]"
    using h p by (rule sizes_single_zero)
  show ?thesis
    using zero_size_attachment [OF h p, of "[]" "[]"] e s
    by (simp add: AttachmentStats.equality)
qed

section \<open>Properties of the size parser\<close>

lemma lowerChar_unit:
  "lowerChar c = CHR ''k'' \<Longrightarrow> c = CHR ''k'' \<or> c = CHR ''K''"
  "lowerChar c = CHR ''m'' \<Longrightarrow> c = CHR ''m'' \<or> c = CHR ''M''"
  "lowerChar c = CHR ''g'' \<Longrightarrow> c = CHR ''g'' \<or> c = CHR ''G''"
  "lowerChar c = CHR ''t'' \<Longrightarrow> c = CHR ''t'' \<or> c = CHR ''T''"
  "lowerChar c = CHR ''b'' \<Longrightarrow> c = CHR ''b'' \<or> c = CHR ''B''"
  by (simp_all add: lowerChar_def split: if_splits)

lemma lower_isB: "lowerChar c = CHR ''b'' \<longleftrightarrow> isB c"
proof
  assume "lowerChar c = CHR ''b''"
  then show "isB c"
    using lowerChar_unit(5) by (auto simp: isB_def)
next
  assume "isB c"
  then have "c = CHR ''b'' \<or> c = CHR ''B''"
    by (simp add: isB_def)
  then show "lowerChar c = CHR ''b''"
    by (elim disjE) (simp_all add: lowerChar_def)
qed

lemma lower_isKMGT:
  "(lowerChar c = CHR ''k'' \<or> lowerChar c = CHR ''m'' \<or> lowerChar c = CHR ''g'' \<or>
    lowerChar c = CHR ''t'') \<longleftrightarrow> isKMGT c"
proof
  assume "lowerChar c = CHR ''k'' \<or> lowerChar c = CHR ''m'' \<or> lowerChar c = CHR ''g'' \<or>
      lowerChar c = CHR ''t''"
  then show "isKMGT c"
    using lowerChar_unit(1-4) [of c] unfolding isKMGT_def by (elim disjE) auto
next
  assume "isKMGT c"
  then have "c = CHR ''k'' \<or> c = CHR ''m'' \<or> c = CHR ''g'' \<or> c = CHR ''t'' \<or>
      c = CHR ''K'' \<or> c = CHR ''M'' \<or> c = CHR ''G'' \<or> c = CHR ''T''"
    by (simp add: isKMGT_def)
  then show "lowerChar c = CHR ''k'' \<or> lowerChar c = CHR ''m'' \<or> lowerChar c = CHR ''g'' \<or>
      lowerChar c = CHR ''t''"
    by (elim disjE) (simp_all add: lowerChar_def)
qed

lemma unitPower_factor: "unitPower s = Some k \<Longrightarrow> factorMap s = Some (1024 ^ k)"
  by (auto simp add: unitPower_def factorMap_def split: if_splits)

lemma letter_classes:
  "isB c \<Longrightarrow> \<not> isKMGT c" "isB c \<Longrightarrow> \<not> isNumCh c" "isB c \<Longrightarrow> \<not> isSpace c"
  "isKMGT c \<Longrightarrow> \<not> isNumCh c" "isKMGT c \<Longrightarrow> \<not> isSpace c"
  "isSpace c \<Longrightarrow> \<not> isNumCh c" "isDigit c \<Longrightarrow> isNumCh c" "\<not> isDigit CHR ''.''"
  "isNumCh CHR ''.''"
  by (auto simp: isB_def isKMGT_def isNumCh_def isDigit_def isSpace_def)

text \<open>The spellings of a unit: one or two letters of the right classes.\<close>

lemma unit_letters:
  assumes "unitPower (toLowerCase u) = Some k"
  shows "(\<exists>a. u = [a] \<and> (isB a \<or> isKMGT a)) \<or> (\<exists>a b. u = [a, b] \<and> isKMGT a \<and> isB b)"
proof -
  have low: "toLowerCase u \<in> {''b'', ''k'', ''kb'', ''m'', ''mb'', ''g'', ''gb'', ''t'', ''tb''}"
    using assms by (simp add: unitPower_def split: if_splits)
  show ?thesis
  proof (cases u)
    case Nil
    then show ?thesis using low by (simp add: toLowerCase_def)
  next
    case (Cons a t)
    note u = this
    show ?thesis
    proof (cases t)
      case Nil
      then have "lowerChar a = CHR ''b'' \<or> (lowerChar a = CHR ''k'' \<or> lowerChar a = CHR ''m'' \<or>
          lowerChar a = CHR ''g'' \<or> lowerChar a = CHR ''t'')"
        using low u by (auto simp: toLowerCase_def)
      then show ?thesis
        unfolding lower_isB lower_isKMGT using u Nil by simp
    next
      case (Cons b t')
      then have "t' = [] \<and> (lowerChar a = CHR ''k'' \<or> lowerChar a = CHR ''m'' \<or>
          lowerChar a = CHR ''g'' \<or> lowerChar a = CHR ''t'') \<and> lowerChar b = CHR ''b''"
        using low u by (auto simp: toLowerCase_def)
      then show ?thesis
        unfolding lower_isB lower_isKMGT using u Cons by simp
    qed
  qed
qed

lemma unit_shape:
  assumes "unitPower (toLowerCase u) = Some k"
  shows "unitAt u = Some u" "u \<noteq> []" "\<not> isNumCh (hd u)" "\<not> isSpace (hd u)"
  using unit_letters [OF assms]
  by (auto simp: unitAt_def boundary_def letter_classes)

lemma takeWhile_run:
  assumes "list_all P xs" "ys = [] \<or> \<not> P (hd ys)"
  shows "takeWhile P (xs @ ys) = xs" "dropWhile P (xs @ ys) = ys"
proof -
  have all: "\<And>x. x \<in> set xs \<Longrightarrow> P x"
    using assms(1) by (simp add: list_all_iff)
  have "takeWhile P ys = []" "dropWhile P ys = ys"
    using assms(2) by (cases ys; simp)+
  then show "takeWhile P (xs @ ys) = xs" "dropWhile P (xs @ ys) = ys"
    using all by (simp_all add: takeWhile_append2 dropWhile_append2)
qed

lemma decimalText_numch:
  assumes "list_all isDigit ip" "ip \<noteq> []" "list_all isDigit fp"
  shows "list_all isNumCh (decimalText ip fp)" "decimalText ip fp \<noteq> []"
  using assms by (auto simp: decimalText_def list_all_iff letter_classes)

lemma decVal_Nil: "decVal [] = 0"
  by (simp add: decVal_def)

lemma parseFloat_decimal:
  assumes "list_all isDigit ip" "ip \<noteq> []" "list_all isDigit fp"
  shows "parseFloat (decimalText ip fp) = toDouble (decimalValue ip fp)"
proof (cases "fp = []")
  case True
  have tw: "takeWhile isDigit ip = ip" "dropWhile isDigit ip = []"
    using assms(1) by (simp_all add: list_all_iff)
  show ?thesis
    using True assms(2)
    by (simp add: parseFloat_def decimalText_def decimalValue_def decVal_Nil Let_def tw)
next
  case False
  have tw: "takeWhile isDigit (ip @ CHR ''.'' # fp) = ip"
    "dropWhile isDigit (ip @ CHR ''.'' # fp) = CHR ''.'' # fp"
    using assms(1) by (intro takeWhile_run; simp add: letter_classes)+
  have tf: "takeWhile isDigit fp = fp"
    using assms(3) by (simp add: list_all_iff)
  show ?thesis
    using False
    by (simp add: parseFloat_def decimalText_def decimalValue_def Let_def tw tf)
qed

lemma matchAt_number_unit:
  assumes "list_all isNumCh num" "num \<noteq> []" "list_all isSpace ws"
    and "unitPower (toLowerCase u) = Some k"
  shows "matchAt (num @ ws @ u) = Some (num, u)"
proof -
  note us = unit_shape [OF assms(4)]
  have "ws @ u = [] \<or> \<not> isNumCh (hd (ws @ u))"
    using assms(3) us(2,3) by (cases ws) (simp_all add: letter_classes)
  then have num: "takeWhile isNumCh (num @ ws @ u) = num"
    "dropWhile isNumCh (num @ ws @ u) = ws @ u"
    using assms(1) by (intro takeWhile_run; simp)+
  have sp: "dropWhile isSpace (ws @ u) = u"
    using assms(3) us(4) by (intro takeWhile_run) simp_all
  show ?thesis
    using assms(2) by (simp add: matchAt_def num sp us(1) Let_def)
qed

lemma matchUnit_first: "matchAt s = Some r \<Longrightarrow> matchUnit s = Some r"
  by (cases s) (simp_all add: matchAt_def)

text \<open>A string of digits and dots has no unit anywhere, and is not "bytes".\<close>

lemma matchAt_numch: "list_all isNumCh s \<Longrightarrow> matchAt s = None"
proof -
  assume a: "list_all isNumCh s"
  have tw: "dropWhile isNumCh s = []"
    using a by (simp add: list_all_iff)
  show ?thesis
    by (simp add: matchAt_def unitAt_def Let_def tw)
qed

lemma matchUnit_numch: "list_all isNumCh s \<Longrightarrow> matchUnit s = None"
  by (induction s) (simp_all add: matchAt_numch)

lemma matchBytes_numch: "list_all isNumCh s \<Longrightarrow> matchBytes s = None"
proof -
  assume a: "list_all isNumCh s"
  have tw: "dropWhile isNumCh s = []"
    using a by (simp add: list_all_iff)
  show ?thesis
    by (simp add: matchBytes_def toLowerCase_def Let_def tw)
qed

text \<open>Text without commas that neither starts nor ends with white space is left as it is.\<close>

lemma rawOf_id:
  assumes "s \<noteq> []" "\<not> isSpace (hd s)" "\<not> isSpace (last s)" "CHR '','' \<notin> set s"
  shows "rawOf s = s"
proof -
  have "dropWhile isSpace s = s"
    using assms(1,2) by (cases s) simp_all
  moreover have "dropWhile isSpace (rev s) = rev s"
    using assms(1,3) by (cases "rev s") (simp_all add: hd_rev)
  moreover have "filter (\<lambda>c. c \<noteq> CHR '','') s = s"
    using assms(4) by (induction s) auto
  ultimately show ?thesis
    by (simp add: rawOf_def trim_def)
qed

lemma decVal_append_zeros: "decVal (s @ replicate n CHR ''0'') = decVal s * 10 ^ n"
proof (induction n)
  case 0
  then show ?case by simp
next
  case (Suc n)
  have "decVal (s @ replicate (Suc n) CHR ''0'') = decVal ((s @ replicate n CHR ''0'') @ ''0'')"
    by (simp add: replicate_append_same)
  also have "\<dots> = 10 * decVal (s @ replicate n CHR ''0'')"
    by (simp add: decVal_def digitVal_def del: append_assoc)
  finally show ?case
    by (simp add: Suc.IH)
qed

text \<open>The doubles of a number with at most 53 significant bits and of its multiples.\<close>

lemma toDouble_dyadic:
  assumes "m < 2 ^ 53" "j \<le> 1074" "i \<le> 971"
  shows "toDouble (real m / 2 ^ j * 2 ^ i) = Num (real m / 2 ^ j * 2 ^ i)"
proof -
  have "\<bar>int m\<bar> < 2 ^ 53"
    using assms(1) by (simp add: zless_nat_eq_int_zless [symmetric] nat_power_eq)
  then have "toDouble (of_int (int m) * 2 powi (int i - int j)) =
      Num (of_int (int m) * 2 powi (int i - int j))"
    using assms(2,3) by (intro toDouble_exact) simp_all
  moreover have "real_of_int (int m) * 2 powi (int i - int j) = real m / 2 ^ j * 2 ^ i"
    by (simp add: power_int_diff)
  ultimately show ?thesis
    by simp
qed

text \<open>
  C4 (as amended). Let the text, after trimming and removing commas, be as follows, with
  \<open>ip\<close> a non-empty string of digits, \<open>fp\<close> a string of digits and \<open>ws\<close> white space.
  A decimal number followed by optional white space and a unit among b, kb, mb, gb, tb,
  k, m, g, t (in any case) parses as the double nearest to the number, times the unit's
  power of 1024 in doubles, and is unparseable when the number is too large for a double.
  When the number has at most 53 significant bits (it is \<open>m / 2 ^ j\<close> with
  \<open>m < 2 ^ 53\<close>), the result is exactly the number times the power of 1024. Digits
  alone parse as the double nearest to that number of bytes, which is the number itself
  below \<open>2 ^ 53\<close>. A number with a decimal point and no unit is unparseable.
\<close>

theorem size_text_number_unit:
  assumes "list_all isDigit ip" "ip \<noteq> []" "list_all isDigit fp" "list_all isSpace ws"
  shows "(unitPower (toLowerCase u) = Some k \<longrightarrow> rawOf v = decimalText ip fp @ ws @ u \<longrightarrow>
            parseSizeToBytes (Some (SizeText v)) =
              (case toDouble (decimalValue ip fp) of
                 Num n \<Rightarrow> Some (toDouble (n * 1024 ^ k))
               | _ \<Rightarrow> None) \<and>
            (decimalValue ip fp = real m / 2 ^ j \<longrightarrow> m < 2 ^ 53 \<longrightarrow> j \<le> 1074 \<longrightarrow>
               parseSizeToBytes (Some (SizeText v)) =
                 Some (Num (decimalValue ip fp * 1024 ^ k)))) \<and>
         (rawOf v = ip \<longrightarrow>
            parseSizeToBytes (Some (SizeText v)) = Some (toDouble (real (decVal ip))) \<and>
            (decVal ip < 2 ^ 53 \<longrightarrow>
               parseSizeToBytes (Some (SizeText v)) = Some (Num (real (decVal ip))))) \<and>
         (fp \<noteq> [] \<longrightarrow> rawOf v = decimalText ip fp \<longrightarrow>
            parseSizeToBytes (Some (SizeText v)) = None)"
proof (intro conjI impI)
  assume unit: "unitPower (toLowerCase u) = Some k"
    and raw: "rawOf v = decimalText ip fp @ ws @ u"
  note num = decimalText_numch [OF assms(1,2,3)]
  note us = unit_shape [OF unit]
  have "\<not> isDigit (hd u)"
    using us(3) letter_classes(7) by blast
  then have nd: "\<not> list_all isDigit u"
    using us(2) by (cases u) simp_all
  have m: "matchUnit (decimalText ip fp @ ws @ u) = Some (decimalText ip fp, u)"
    using matchAt_number_unit [OF num assms(4) unit] by (rule matchUnit_first)
  have p: "parseSizeToBytes (Some (SizeText v)) =
      scale (toDouble (decimalValue ip fp)) (toLowerCase u)"
    using num(2)
    by (simp add: parseSizeText_def Let_def raw nd m parseFloat_decimal [OF assms(1,2,3)])
  have s: "scale x (toLowerCase u) =
      (case x of Num n \<Rightarrow> Some (toDouble (n * 1024 ^ k)) | _ \<Rightarrow> None)" for x
    by (cases x) (simp_all add: scale_def unitPower_factor [OF unit] dbl_mul_def)
  show "parseSizeToBytes (Some (SizeText v)) =
      (case toDouble (decimalValue ip fp) of
         Num n \<Rightarrow> Some (toDouble (n * 1024 ^ k))
       | _ \<Rightarrow> None)"
    unfolding p by (rule s)
  assume d: "decimalValue ip fp = real m / 2 ^ j" and mj: "m < 2 ^ 53" "j \<le> 1074"
  have "k \<le> 4"
    using unit by (auto simp add: unitPower_def split: if_splits)
  then have k: "10 * k \<le> 971"
    by simp
  have pw: "(1024::real) ^ k = 2 ^ (10 * k)"
    by (simp add: power_mult)
  have "toDouble (real m / 2 ^ j * 2 ^ 0) = Num (real m / 2 ^ j * 2 ^ 0)"
    using mj by (intro toDouble_dyadic) simp_all
  then have "toDouble (decimalValue ip fp) = Num (real m / 2 ^ j)"
    by (simp add: d)
  moreover have "toDouble (real m / 2 ^ j * 2 ^ (10 * k)) = Num (real m / 2 ^ j * 2 ^ (10 * k))"
    using mj k by (rule toDouble_dyadic)
  ultimately show "parseSizeToBytes (Some (SizeText v)) =
      Some (Num (decimalValue ip fp * 1024 ^ k))"
    unfolding p s pw d by simp
next
  assume "rawOf v = ip"
  then show p: "parseSizeToBytes (Some (SizeText v)) = Some (toDouble (real (decVal ip)))"
    using assms(1,2) by (simp add: parseSizeText_def Let_def parseInt_def)
  assume "decVal ip < 2 ^ 53"
  then have "toDouble (real (decVal ip) / 2 ^ 0 * 2 ^ 0) = Num (real (decVal ip) / 2 ^ 0 * 2 ^ 0)"
    by (intro toDouble_dyadic) simp_all
  then show "parseSizeToBytes (Some (SizeText v)) = Some (Num (real (decVal ip)))"
    unfolding p by simp
next
  assume fp: "fp \<noteq> []" and raw: "rawOf v = decimalText ip fp"
  note num = decimalText_numch [OF assms(1,2,3)]
  have "\<not> list_all isDigit (decimalText ip fp)"
    using fp by (simp add: decimalText_def letter_classes)
  then show "parseSizeToBytes (Some (SizeText v)) = None"
    using num by (simp add: parseSizeText_def Let_def raw matchUnit_numch matchBytes_numch)
qed

theorem size_text_number_unit_witness:
  "parseSizeToBytes (Some (SizeText ''3.5 MB'')) = Some (Num 3670016) \<and>
   parseSizeToBytes (Some (SizeText ''3.2 MB'')) = Some (Num (3602879701896397 / 1073741824)) \<and>
   parseSizeToBytes (Some (SizeText ''1,024'')) = Some (Num 1024) \<and>
   parseSizeToBytes (Some (SizeText ''9007199254740993'')) = Some (Num 9007199254740992) \<and>
   parseSizeToBytes (Some (SizeText (''1'' @ replicate 309 CHR ''0''))) = Some PosInfinity \<and>
   parseSizeToBytes (Some (SizeText (''1'' @ replicate 309 CHR ''0'' @ '' KB''))) = None \<and>
   parseSizeToBytes (Some (SizeText ''0.5'')) = None"
proof -
  define big where "big = ''1'' @ replicate 309 CHR ''0''"
  have raw: "rawOf ''3.5 MB'' = decimalText ''3'' ''5'' @ '' '' @ ''MB''"
    "rawOf ''3.2 MB'' = decimalText ''3'' ''2'' @ '' '' @ ''MB''"
    "rawOf ''1,024'' = ''1024''" "rawOf ''9007199254740993'' = ''9007199254740993''"
    "rawOf ''0.5'' = decimalText ''0'' ''5''"
    by (simp_all add: rawOf_def trim_def isSpace_def decimalText_def)
  have rawbig: "rawOf big = big" "rawOf (big @ '' KB'') = decimalText big [] @ '' '' @ ''KB''"
    by (simp_all add: rawOf_id big_def isSpace_def decimalText_def)
  have unit: "unitPower (toLowerCase ''MB'') = Some 2" "unitPower (toLowerCase ''KB'') = Some 1"
    by (simp_all add: unitPower_def toLowerCase_def lowerChar_def)
  have val: "decimalValue ''3'' ''5'' = real 7 / 2 ^ 1" "decimalValue ''3'' ''2'' = 3.2"
    "decVal ''1024'' = 1024" "decVal ''9007199254740993'' = 9007199254740993"
    by (simp_all add: decimalValue_def decVal_def digitVal_def)
  have "decVal big = decVal ''1'' * 10 ^ 309"
    unfolding big_def by (rule decVal_append_zeros)
  then have valbig: "real (decVal big) = 10 ^ 309" "decimalValue big [] = 10 ^ 309"
    by (simp_all add: decimalValue_def decVal_def digitVal_def)
  have d: "list_all isDigit ''3''" "''3'' \<noteq> []" "list_all isDigit ''5''" "list_all isSpace '' ''"
    "list_all isDigit ''2''" "list_all isDigit ''1024''" "''1024'' \<noteq> []"
    "list_all isDigit ''9007199254740993''" "''9007199254740993'' \<noteq> []"
    "list_all isDigit ''0''" "''0'' \<noteq> []" "list_all isSpace []" "''5'' \<noteq> []"
    "list_all isDigit []"
    by (simp_all add: isDigit_def isSpace_def)
  have dbig: "list_all isDigit big" "big \<noteq> []"
    by (simp_all add: big_def isDigit_def list_all_iff)
  have dbl: "toDouble 3.2 = Num (3602879701896397 / 1125899906842624)"
    "toDouble (3602879701896397 / 1125899906842624 * 1024 ^ 2) =
       Num (3602879701896397 / 1073741824)"
    "toDouble 9007199254740993 = Num 9007199254740992"
    using toDouble_binade [of 1 "3.2"]
      toDouble_binade [of 21 "3602879701896397 / 1125899906842624 * 1024 ^ 2"]
      toDouble_binade [of 53 "9007199254740993"]
    by (simp_all add: roundEven_def)
  have inf: "toDouble (10 ^ 309) = PosInfinity"
    by (rule toDouble_overflow) simp
  have small: "(7::nat) < 2 ^ 53" "(1::nat) \<le> 1074" "decVal ''1024'' < 2 ^ 53"
    by (simp_all add: val(3))
  have "parseSizeToBytes (Some (SizeText ''3.5 MB'')) =
      Some (Num (decimalValue ''3'' ''5'' * 1024 ^ 2))"
    using size_text_number_unit [OF d(1,2,3,4), where u = "''MB''" and k = 2
        and v = "''3.5 MB''" and m = 7 and j = 1] unit(1) raw(1) val(1) small(1,2)
    by blast
  then have "parseSizeToBytes (Some (SizeText ''3.5 MB'')) = Some (Num 3670016)"
    by (simp add: val(1))
  moreover have "parseSizeToBytes (Some (SizeText ''3.2 MB'')) =
      (case toDouble (decimalValue ''3'' ''2'') of
         Num n \<Rightarrow> Some (toDouble (n * 1024 ^ 2))
       | _ \<Rightarrow> None)"
    using size_text_number_unit [OF d(1,2,5,4), where u = "''MB''" and k = 2
        and v = "''3.2 MB''"] unit(1) raw(2)
    by blast
  then have "parseSizeToBytes (Some (SizeText ''3.2 MB'')) =
      Some (Num (3602879701896397 / 1073741824))"
    by (simp only: val(2) dbl number.case)
  moreover have "parseSizeToBytes (Some (SizeText ''1,024'')) =
      Some (Num (real (decVal ''1024'')))"
    using size_text_number_unit [OF d(6,7,14,12), where v = "''1,024''"] raw(3) small(3)
    by blast
  then have "parseSizeToBytes (Some (SizeText ''1,024'')) = Some (Num 1024)"
    by (simp add: val(3))
  moreover have "parseSizeToBytes (Some (SizeText ''9007199254740993'')) =
      Some (toDouble (real (decVal ''9007199254740993'')))"
    using size_text_number_unit [OF d(8,9,14,12), where v = "''9007199254740993''"] raw(4)
    by blast
  then have "parseSizeToBytes (Some (SizeText ''9007199254740993'')) =
      Some (Num 9007199254740992)"
    by (simp add: val(4) dbl(3))
  moreover have "parseSizeToBytes (Some (SizeText big)) = Some (toDouble (real (decVal big)))"
    using size_text_number_unit [OF dbig d(14,12), where v = big] rawbig(1)
    by blast
  then have "parseSizeToBytes (Some (SizeText big)) = Some PosInfinity"
    by (simp only: valbig inf)
  moreover have "parseSizeToBytes (Some (SizeText (big @ '' KB''))) =
      (case toDouble (decimalValue big []) of
         Num n \<Rightarrow> Some (toDouble (n * 1024 ^ 1))
       | _ \<Rightarrow> None)"
    using size_text_number_unit [OF dbig d(14,4), where u = "''KB''" and k = 1
        and v = "big @ '' KB''"] unit(2) rawbig(2)
    by blast
  then have "parseSizeToBytes (Some (SizeText (big @ '' KB''))) = None"
    by (simp only: valbig inf number.case)
  moreover have "parseSizeToBytes (Some (SizeText ''0.5'')) = None"
    using size_text_number_unit [OF d(10,11,3,12), where v = "''0.5''"] raw(5) d(13)
    by blast
  ultimately show ?thesis
    unfolding big_def by simp
qed

text \<open>The bare decimal "3.5" is unparseable: it is not 3.5 bytes.\<close>

theorem bare_decimal_counterexample:
  "parseSizeToBytes (Some (SizeText ''3.5'')) = None"
  by (simp add: parseSizeText_def rawOf_def trim_def isSpace_def isDigit_def matchAt_def
      isNumCh_def unitAt_def matchBytes_def toLowerCase_def)

section \<open>The trend window and the calendar grid\<close>

lemmas civil_defs =
  civilYear_def civilMonth_def civilDay_def monthIndex_def dayOfYear_def yearOfEra_def
  dayOfEra_def era_def localDay_def msPerDay_def

lemmas show_defs = showInt_def pad2_def showNat.simps

subsection \<open>A reversed semester range\<close>

lemma getTime_newDate: "newDate (getTime (newDate x)) = newDate x"
proof (cases "newDate x")
  case InvalidDate
  then show ?thesis by simp
next
  case (Date t)
  then have "\<bar>t\<bar> \<le> 8640000000000000"
    by (cases x) (auto simp: timeClip_def split: if_splits)
  then show ?thesis
    using Date by (auto simp: timeClip_def)
qed

text \<open>
  After the exchange through the alias both candidates hold the time of the earlier end
  point: the range collapses instead of being turned around.
\<close>

lemma normalizeRange_reversed:
  assumes "l < f"
  shows "normalizeRange (Date f) (Date l) =
         (newDate (Num (real_of_int l)), newDate (Num (real_of_int l)))"
  using assms by (simp add: normalizeRange_def setTime_def getTime_newDate)

lemma normalizeRange_ordered:
  assumes "f \<le> l"
  shows "normalizeRange (Date f) (Date l) = (Date f, Date l)"
  using assms by (simp add: normalizeRange_def)

lemma rangeDays_same: "\<not> (isFinite (rangeDays d d) \<and> js_ge (rangeDays d d) (Num 7))"
  by (cases d) (simp_all add: rangeDays_def js_sub_def js_ge_def js_le_def)

lemma trendWindow_reversed:
  assumes "l < f"
  shows "trendWindow \<lparr>startDate = Some (Date f), endDate = Some (Date l)\<rparr> mn mx = (mn, mx)"
proof -
  obtain d where d: "normalizeRange (Date f) (Date l) = (d, d)"
    using normalizeRange_reversed [OF assms] by blast
  show ?thesis
    using rangeDays_same [of d] by (auto simp add: trendWindow_def d Let_def)
qed

lemma trendWindow_none: "trendWindow \<lparr>startDate = None, endDate = None\<rparr> mn mx = (mn, mx)"
  by (simp add: trendWindow_def)

text \<open>
  Whatever the records, a semester whose end lies before its start, by however many days,
  gives the trend of no semester at all.
\<close>

lemma reversed_semester_ignored:
  assumes "l < f"
  shows "submissionTrend tz homeworks \<lparr>startDate = Some (Date f), endDate = Some (Date l)\<rparr> =
         submissionTrend tz homeworks \<lparr>startDate = None, endDate = None\<rparr>"
  by (simp add: submissionTrend_def trendWindow_reversed [OF assms] trendWindow_none
      cong: list.case_cong)

lemma dayCounts_single:
  "getOr0 (dayCounts tz [hw]) key = (if key = formatDateKey tz (submitTimeOf hw) then 1 else 0)"
  by (simp add: dayCounts_def countDay_def getOr0_def)

text \<open>
  C3, at the failing input. The time zone is UTC+8. One record, submitted on 10 February
  2024 at noon; the semester is given from 1 March 2024 back to 1 February 2024 (both at
  midnight), 29 days in reversed order. In the right order the series has the 30 points
  of the semester; reversed, it has the single point of the data-derived window.
\<close>

theorem reversed_semester_trend:
  "length (submissionTrend 28800000
     [\<lparr>courseId = ''c'', deadline = None, submitted = True,
       submitTime = Some (Date 1707537600000), submittedAttachment = None\<rparr>]
     \<lparr>startDate = Some (Date 1706716800000), endDate = Some (Date 1709222400000)\<rparr>) = 30 \<and>
   submissionTrend 28800000
     [\<lparr>courseId = ''c'', deadline = None, submitted = True,
       submitTime = Some (Date 1707537600000), submittedAttachment = None\<rparr>]
     \<lparr>startDate = Some (Date 1709222400000), endDate = Some (Date 1706716800000)\<rparr> =
   [(''02/10'', 1)]"
proof -
  let ?hw = "\<lparr>courseId = ''c'', deadline = None, submitted = True,
       submitTime = Some (Date 1707537600000), submittedAttachment = None\<rparr>"
  have cand: "candidateDates [?hw] = [Date 1707537600000]"
    by (simp add: candidateDates_def submittedHomeworks_def submittedAll_def submitTimeOf_def
        deadlines_def)
  have mm: "minDate (Date 1707537600000) [] = Date 1707537600000"
    "maxDate (Date 1707537600000) [] = Date 1707537600000"
    by (simp_all add: minDate_def maxDate_def)
  have fwd: "trendWindow \<lparr>startDate = Some (Date 1706716800000),
        endDate = Some (Date 1709222400000)\<rparr> (Date 1707537600000) (Date 1707537600000) =
      (Date 1706716800000, Date 1709222400000)"
    by (simp add: trendWindow_def normalizeRange_ordered rangeDays_def js_sub_def js_ge_def
        js_le_def)
  have days: "totalDays (Date 1706716800000) (Date 1709222400000) = 30"
    "totalDays (Date 1707537600000) (Date 1707537600000) = 1"
    by (simp_all add: totalDays_def rangeDays_def js_sub_def)
  have key: "formatDateKey 28800000 (Date 1707537600000) = ''2024-02-10''"
    by (simp add: civil_defs show_defs)
  have item: "trendItem 28800000 (dayCounts 28800000 [?hw]) (Date 1707537600000) 0 =
      (''02/10'', 1)"
    by (simp add: trendItem_def dayCounts_single submitTimeOf_def dayOfMonth_def timeClip_def
        civil_defs show_defs part_def)
  have one: "submissionTrend 28800000 [?hw]
      \<lparr>startDate = None, endDate = None\<rparr> = [(''02/10'', 1)]"
    by (simp add: submissionTrend_def cand mm trendWindow_none days item
        submittedHomeworks_def submittedAll_def)
  have "length (submissionTrend 28800000 [?hw]
      \<lparr>startDate = Some (Date 1706716800000), endDate = Some (Date 1709222400000)\<rparr>) = 30"
    by (simp add: submissionTrend_def cand mm fwd days)
  moreover have "submissionTrend 28800000 [?hw]
      \<lparr>startDate = Some (Date 1709222400000), endDate = Some (Date 1706716800000)\<rparr> =
      [(''02/10'', 1)]"
    using reversed_semester_ignored [of 1706716800000 1709222400000 28800000 "[?hw]"] one
    by simp
  ultimately show ?thesis by blast
qed

subsection \<open>The calendar grid\<close>

lemma weeks_fold:
  "weeks (fold (calendarWeek tz counts start) ws st) =
   weeks st @ map (weekCells tz counts start) ws"
  by (induction ws arbitrary: st) (simp_all add: calendarWeek_def Let_def)

text \<open>The start of the grid: the week start of 111 days before the latest submission.\<close>

lemma calendar_weeks:
  assumes "submittedHomeworks homeworks \<noteq> []"
  shows "weeks (calendarHeatmap tz homeworks) =
         map (weekCells tz (dayCounts tz (submittedHomeworks homeworks))
                (startOfWeek tz
                  (addDays tz
                    (newDate (mathMax (map (\<lambda>h. getTime (submitTimeOf h))
                       (submittedHomeworks homeworks))))
                    (- 111))))
           [0..<16]"
  using assms by (simp add: calendarHeatmap_def Let_def weeks_fold)

text \<open>The grid has 16 weeks of 7 cells whenever there is a submission.\<close>

lemma calendar_shape:
  assumes "submittedHomeworks homeworks \<noteq> []"
  shows "map length (weeks (calendarHeatmap tz homeworks)) = replicate 16 7"
proof -
  have "map length (map (weekCells tz counts start) ws) = replicate (length ws) 7"
    for counts start ws
    by (induction ws) (simp_all add: weekCells_def)
  then show ?thesis
    by (simp add: calendar_weeks [OF assms])
qed

text \<open>
  C2, at the failing input. The time zone is UTC+8. One record, submitted on Sunday
  7 January 2024 at noon. The grid has 16 weeks of 7 cells, but its last week runs from
  Sunday 31 December 2023 to Saturday 6 January 2024 with no submission in it: the day of
  the most recent submission is not in the last week.
\<close>

theorem calendar_last_week_sunday:
  "map length (weeks (calendarHeatmap 28800000
     [\<lparr>courseId = ''c'', deadline = None, submitted = True,
       submitTime = Some (Date 1704600000000), submittedAttachment = None\<rparr>])) =
     replicate 16 7 \<and>
   last (weeks (calendarHeatmap 28800000
     [\<lparr>courseId = ''c'', deadline = None, submitted = True,
       submitTime = Some (Date 1704600000000), submittedAttachment = None\<rparr>])) =
     [(''2023-12-31'', 0), (''2024-01-01'', 0), (''2024-01-02'', 0), (''2024-01-03'', 0),
      (''2024-01-04'', 0), (''2024-01-05'', 0), (''2024-01-06'', 0)] \<and>
   formatDateKey 28800000 (Date 1704600000000) = ''2024-01-07'' \<and>
   getDay 28800000 (Date 1704600000000) = Num 0"
proof -
  let ?hw = "\<lparr>courseId = ''c'', deadline = None, submitted = True,
       submitTime = Some (Date 1704600000000), submittedAttachment = None\<rparr>"
  have shw: "submittedHomeworks [?hw] = [?hw]"
    by (simp add: submittedHomeworks_def submittedAll_def)
  have start: "startOfWeek 28800000
      (addDays 28800000 (newDate (mathMax [getTime (submitTimeOf ?hw)])) (- 111)) =
      Date 1694880000000"
    by (simp add: mathMax_def submitTimeOf_def js_gt_def timeClip_def dayOfMonth_def
        weekDay_def localDay_def msPerDay_def)
  have key: "formatDateKey 28800000 (Date 1704600000000) = ''2024-01-07''"
    by (simp add: civil_defs show_defs)
  have day: "getDay 28800000 (Date 1704600000000) = Num 0"
    by (simp add: weekDay_def localDay_def msPerDay_def)
  have cells: "weekCells 28800000 (dayCounts 28800000 [?hw]) (Date 1694880000000) 15 =
     [(''2023-12-31'', 0), (''2024-01-01'', 0), (''2024-01-02'', 0), (''2024-01-03'', 0),
      (''2024-01-04'', 0), (''2024-01-05'', 0), (''2024-01-06'', 0)]"
    by (simp add: weekCells_def upt_rec dayCounts_single submitTimeOf_def key dayOfMonth_def
        timeClip_def civil_defs show_defs)
  have "weeks (calendarHeatmap 28800000 [?hw]) =
      map (weekCells 28800000 (dayCounts 28800000 [?hw]) (Date 1694880000000)) [0..<16]"
    using calendar_weeks [of "[?hw]" 28800000] by (simp add: shw start)
  then have "last (weeks (calendarHeatmap 28800000 [?hw])) =
      weekCells 28800000 (dayCounts 28800000 [?hw]) (Date 1694880000000) 15"
    by (simp add: last_map)
  moreover have "map length (weeks (calendarHeatmap 28800000 [?hw])) = replicate 16 7"
    by (rule calendar_shape) (simp add: shw)
  ultimately show ?thesis
    using key day by (simp only: cells)
qed

subsection \<open>Where the calendar grid ends, in general\<close>

lemma addDays_Date: "addDays tz (Date t) k = timeClip (t + k * msPerDay)"
  by simp

lemma localDay_bounds:
  "localDay tz t * msPerDay \<le> t + tz" "t + tz < localDay tz t * msPerDay + msPerDay"
proof -
  have "(t + tz) div 86400000 * 86400000 + (t + tz) mod 86400000 = t + tz"
    by simp
  moreover have "0 \<le> (t + tz) mod 86400000" "(t + tz) mod 86400000 < 86400000"
    by simp_all
  ultimately show "localDay tz t * msPerDay \<le> t + tz"
    "t + tz < localDay tz t * msPerDay + msPerDay"
    unfolding localDay_def msPerDay_def by linarith+
qed

lemma localDay_shift: "localDay tz (t + k * msPerDay) = localDay tz t + k"
proof -
  have "(t + tz + k * 86400000) div 86400000 = (t + tz) div 86400000 + k"
    by simp
  then show ?thesis
    by (simp add: localDay_def msPerDay_def add.commute add.left_commute)
qed

lemma weekDay_range: "0 \<le> weekDay tz t" "weekDay tz t < 7"
  by (simp_all add: weekDay_def)

lemma weekDay_back: "weekDay tz (t + (- 111) * msPerDay) = (weekDay tz t + 1) mod 7"
  unfolding weekDay_def localDay_shift by presburger

text \<open>
  For a latest submission at time \<open>t\<close> (well inside the range of valid dates), the last
  cell of the grid, 111 days after its start, is the local midnight of the day
  \<open>(weekDay + 1) mod 7\<close> days before the day of the submission: the same day for a
  Saturday, the Saturday before for any other day of the week.
\<close>

lemma grid_last_day:
  assumes "\<bar>t\<bar> \<le> 8000000000000000" "\<bar>tz\<bar> \<le> 86400000"
  shows "addDays tz (startOfWeek tz (addDays tz (Date t) (- 111))) 111 =
         Date ((localDay tz t - (weekDay tz t + 1) mod 7) * msPerDay - tz)"
proof -
  define t1 where "t1 = t + (- 111) * msPerDay"
  define w where "w = weekDay tz t1"
  define t2 where "t2 = t1 + (- w) * msPerDay"
  define t3 where "t3 = localDay tz t2 * msPerDay - tz"
  have w: "0 \<le> w" "w < 7" "w = (weekDay tz t + 1) mod 7"
    unfolding w_def t1_def weekDay_back by simp_all
  have r1: "\<bar>t1\<bar> \<le> 8640000000000000"
    using assms(1) by (simp add: t1_def msPerDay_def)
  have r2: "\<bar>t2\<bar> \<le> 8640000000000000"
    using assms(1) w(1,2) by (simp add: t2_def t1_def msPerDay_def)
  have d2: "localDay tz t2 = localDay tz t - 111 - w"
    unfolding t2_def t1_def localDay_shift by simp
  have b2: "t3 \<le> t2" "t2 - 86400000 < t3"
    using localDay_bounds [where tz = tz and t = t2] by (simp_all add: t3_def msPerDay_def)
  have r3: "\<bar>t3\<bar> \<le> 8640000000000000"
    using b2 assms(1) w(1,2) by (simp add: t2_def t1_def msPerDay_def)
  have r4: "\<bar>t3 + 111 * msPerDay\<bar> \<le> 8640000000000000"
    using b2 assms(1) w(1,2) by (simp add: t2_def t1_def msPerDay_def)
  have s1: "addDays tz (Date t) (- 111) = Date t1"
    using r1 by (simp only: addDays_Date t1_def timeClip_def if_True)
  have "setDate tz (Date t1) (dayOfMonth tz t1 - w) = Date t2"
    using r2 by (simp add: timeClip_def t2_def)
  then have s2: "startOfWeek tz (Date t1) = Date t3"
    using r3 by (simp add: w_def [symmetric] timeClip_def t3_def)
  have "addDays tz (Date t3) 111 = Date (t3 + 111 * msPerDay)"
    using r4 by (simp only: addDays_Date timeClip_def if_True)
  also have "t3 + 111 * msPerDay = (localDay tz t - w) * msPerDay - tz"
    by (simp add: t3_def d2 algebra_simps)
  finally show ?thesis
    by (simp only: s1 s2 w(3))
qed

text \<open>So the day of the latest submission is in the grid only if that day is a Saturday.\<close>

lemma grid_misses_latest_day:
  assumes "\<bar>t\<bar> \<le> 8000000000000000" "\<bar>tz\<bar> \<le> 86400000" "weekDay tz t \<noteq> 6"
    and "addDays tz (startOfWeek tz (addDays tz (Date t) (- 111))) 111 = Date e"
  shows "localDay tz e < localDay tz t"
proof -
  have "0 < (weekDay tz t + 1) mod 7"
    using assms(3) weekDay_range [of tz t] by presburger
  moreover have "e = (localDay tz t - (weekDay tz t + 1) mod 7) * msPerDay - tz"
    using grid_last_day [OF assms(1,2)] assms(4) by simp
  then have "localDay tz e = localDay tz t - (weekDay tz t + 1) mod 7"
    by (simp add: localDay_def msPerDay_def)
  ultimately show ?thesis by simp
qed

subsection \<open>A semester range in order whose end is later in the day than its start\<close>

text \<open>
  With the end points in order the window is the semester, and the number of points is
  \<open>ceil(days) + 1\<close>: when the end is later in the day than the start, even by a
  millisecond, the series has one point after the day of the end (here 31 points for
  1 February to 1 March 2024, the last one for 2 March).
\<close>

lemma semester_end_later_in_day:
  "length (submissionTrend 28800000
     [\<lparr>courseId = ''c'', deadline = None, submitted = True,
       submitTime = Some (Date 1707537600000), submittedAttachment = None\<rparr>]
     \<lparr>startDate = Some (Date 1706716800000), endDate = Some (Date 1709222400001)\<rparr>) = 31"
proof -
  let ?hw = "\<lparr>courseId = ''c'', deadline = None, submitted = True,
       submitTime = Some (Date 1707537600000), submittedAttachment = None\<rparr>"
  have cand: "candidateDates [?hw] = [Date 1707537600000]"
    by (simp add: candidateDates_def submittedHomeworks_def submittedAll_def submitTimeOf_def
        deadlines_def)
  have fwd: "trendWindow \<lparr>startDate = Some (Date 1706716800000),
        endDate = Some (Date 1709222400001)\<rparr> mn mx =
      (Date 1706716800000, Date 1709222400001)" for mn mx
    by (simp add: trendWindow_def normalizeRange_ordered rangeDays_def js_sub_def js_ge_def
        js_le_def)
  have days: "totalDays (Date 1706716800000) (Date 1709222400001) = 31"
    by (simp add: totalDays_def rangeDays_def js_sub_def)
  show ?thesis
    by (simp add: submissionTrend_def cand fwd days)
qed

end
